theory Spec2Isabelle
  imports Main "HOL-Library.Word"
begin

unbundle bit_operations_syntax

section \<open>The per-buffer client registry (BufferNode)\<close>

text \<open>
  Only the tests of \<^verbatim>\<open>BufferNode\<close> are part of the sources
  (\<^verbatim>\<open>buffer_node-test.cpp\<close>); the bodies of
  \<^verbatim>\<open>AddNewActiveClientsBitToMask\<close> and \<^verbatim>\<open>RemoveClientsBitFromMask\<close> are not.
  The registry below is therefore written from the specification (sections 3 and 4.2),
  with the names the specification uses.  The compare-and-swap is modelled for one
  caller at a time, where it succeeds on its first attempt.
\<close>

text \<open>
  Modelled from the spec: the \<^verbatim>\<open>ClientRegistry\<close>, "active_clients_mask: u64, one bit per
  currently attached client", together with the error that a failed \<^verbatim>\<open>acquire_bit\<close>
  sets (the \<^verbatim>\<open>errno\<close> that the test reads).
\<close>

datatype registry_error = OutOfCapacity

record registry =
  active_clients_mask :: "64 word"
  last_error :: "registry_error option"

text \<open>
  Modelled from the spec: the scan of \<^verbatim>\<open>acquire_bit\<close>, "scan from bit 0 upward for the
  first zero bit in active_clients_mask".  The first argument is the number of bit
  positions still to be looked at, the second the position looked at next.
\<close>

fun scan_zero_bit :: "nat \<Rightarrow> nat \<Rightarrow> 64 word \<Rightarrow> nat option" where
  "scan_zero_bit 0 i m = None"
| "scan_zero_bit (Suc k) i m = (if bit m i then scan_zero_bit k (Suc i) m else Some i)"

text \<open>
  Modelled from the spec: \<^verbatim>\<open>acquire_bit()\<close>, "CAS it to 1, return the bit value (not the
  index) -- returns 0 and sets an out-of-capacity error when no bit is free (maximum 64
  simultaneous clients per buffer)".
\<close>

definition acquire_bit :: "registry \<Rightarrow> 64 word \<times> registry" where
  "acquire_bit r =
     (case scan_zero_bit 64 0 (active_clients_mask r) of
        None \<Rightarrow> (0, r\<lparr>last_error := Some OutOfCapacity\<rparr>)
      | Some i \<Rightarrow>
          (push_bit i 1, r\<lparr>active_clients_mask := active_clients_mask r OR push_bit i 1\<rparr>))"

text \<open>
  Modelled from the spec: \<^verbatim>\<open>release_bit(bit)\<close>, "CAS-clear; repeated release of the same
  bit is a safe no-op, not an error".
\<close>

definition release_bit :: "64 word \<Rightarrow> registry \<Rightarrow> registry" where
  "release_bit b r = r\<lparr>active_clients_mask := active_clients_mask r AND NOT b\<rparr>"

text \<open>A run of \<open>n\<close> consecutive \<^verbatim>\<open>acquire_bit\<close> calls: the bits returned, in order, and the
  registry left behind.\<close>

fun acquire_many :: "nat \<Rightarrow> registry \<Rightarrow> 64 word list \<times> registry" where
  "acquire_many 0 r = ([], r)"
| "acquire_many (Suc n) r =
     (case acquire_bit r of (b, r1) \<Rightarrow>
        (case acquire_many n r1 of (bs, r2) \<Rightarrow> (b # bs, r2)))"

text \<open>The number of bits set in a mask.\<close>

definition count_bits :: "64 word \<Rightarrow> nat" where
  "count_bits m = length (filter (bit m) [0..<64])"

text \<open>Any interleaving of the two registry operations, run from left to right.\<close>

datatype registry_op = Acquire_bit | Release_bit "64 word"

fun run_ops :: "registry_op list \<Rightarrow> registry \<Rightarrow> registry" where
  "run_ops [] r = r"
| "run_ops (Acquire_bit # ops) r = run_ops ops (snd (acquire_bit r))"
| "run_ops (Release_bit b # ops) r = run_ops ops (release_bit b r)"

section \<open>Ownership transitions of a client handle\<close>

text \<open>
  \<^verbatim>\<open>BufferHubBuffer::Gain\<close> and \<^verbatim>\<open>ProducerBuffer::Gain\<close> are declared in the sources
  (\<^verbatim>\<open>BufferHubBuffer.h\<close>, \<^verbatim>\<open>producer_buffer.h\<close>) but their bodies are not part of them.
  The transition is written from the specification (sections 3 and 4.1); the
  compare-and-swap is again modelled for one caller at a time.
\<close>

text \<open>
  Modelled from the spec: the \<^verbatim>\<open>ClientHandle\<close>, "client bit (from ClientRegistry), role
  (producer/consumer)", and the \<^verbatim>\<open>OwnershipState\<close>, "ownership_mask: u64 -- bit b is set
  while client b currently holds the buffer", with the "fence/generation counter" that
  "accompanies each transition" and the fence handed from one holder to the next.
\<close>

datatype client_role = Producer | Consumer

datatype ownership_error = NotReleased | WrongRole

datatype post_error = NotGained | NotProducer

record client_handle =
  client_bit :: "64 word"
  role :: client_role

record ownership_state =
  ownership_mask :: "64 word"
  generation :: nat
  pending_fence :: "nat option"

text \<open>
  Modelled from the spec: \<^verbatim>\<open>Gain\<close>, "(producer only): preconditions -- no other client bit
  may be set.  On success, set bit b, advance the fence/generation, and hand back any
  inherited fence from the previous reader/writer.  Fails with NotReleased if another bit
  remains set".  The role is "checked at the call site"; a handle that is not a producer
  is turned away before the state word is looked at.
\<close>

definition Gain ::
  "client_handle \<Rightarrow> ownership_state \<Rightarrow> ownership_error + (nat option \<times> ownership_state)" where
  "Gain h s =
     (if role h \<noteq> Producer then Inl WrongRole
      else if ownership_mask s AND NOT (client_bit h) \<noteq> 0 then Inl NotReleased
      else Inr (pending_fence s,
                s\<lparr>ownership_mask := ownership_mask s OR client_bit h,
                  generation := Suc (generation s),
                  pending_fence := None\<rparr>))"

text \<open>
  Modelled from the spec: \<^verbatim>\<open>Release\<close>, "(any role): clears bit b unconditionally".
\<close>

definition Release :: "client_handle \<Rightarrow> ownership_state \<Rightarrow> ownership_state" where
  "Release h s = s\<lparr>ownership_mask := ownership_mask s AND NOT (client_bit h)\<rparr>"

text \<open>
  Modelled from the spec: \<^verbatim>\<open>Post\<close>, "(producer only): preconditions -- bit b must be the
  only set bit (producer currently holds it).  Clears bit b", carrying a release-ready
  fence; like every transition it advances the generation.  The per-frame metadata that
  travels with a Post is kept beside the state word (see the store of the adapter
  below), since this record is shared with \<^verbatim>\<open>Gain\<close>.
\<close>

definition Post ::
  "client_handle \<Rightarrow> nat option \<Rightarrow> ownership_state \<Rightarrow> post_error + ownership_state" where
  "Post h ready_fence s =
     (if role h \<noteq> Producer then Inl NotProducer
      else if ownership_mask s \<noteq> client_bit h then Inl NotGained
      else Inr (s\<lparr>ownership_mask := ownership_mask s AND NOT (client_bit h),
                  generation := Suc (generation s),
                  pending_fence := ready_fence\<rparr>))"

section \<open>The producer-side queue adapter (BufferHubProducer)\<close>

text \<open>
  The whole of \<^verbatim>\<open>BufferHubProducer.cpp\<close> is part of the sources (it follows the BufferNode
  test in \<^verbatim>\<open>buffer_node-test.cpp\<close>, from line 90 on).  What it calls is not: the
  headers with its constants, \<^verbatim>\<open>BufferSlot\<close>/\<^verbatim>\<open>BufferState\<close>, \<^verbatim>\<open>Rect\<close>, the
  \<^verbatim>\<open>ProducerQueue\<close> behind \<^verbatim>\<open>queue_\<close>, and the bodies of \<^verbatim>\<open>ProducerBuffer\<close>.  The functions
  of \<^verbatim>\<open>BufferHubProducer.cpp\<close> are translated line by line; the constants are parameters;
  the collaborators are written from the specification and marked as such.
\<close>

subsection \<open>Constants and integer conversions\<close>

text \<open>
  \<^verbatim>\<open>BufferHubQueue::kMaxQueueCapacity\<close> (a \<^verbatim>\<open>size_t\<close>), \<^verbatim>\<open>kDefaultUndequeuedBuffers\<close> and
  \<^verbatim>\<open>kNoConnectedApi\<close> (both \<^verbatim>\<open>int\<close>) are declared in headers that are not part of the
  sources.  They are parameters of every function below.
\<close>

record adapter_consts =
  kMaxQueueCapacity :: nat
  kDefaultUndequeuedBuffers :: int
  kNoConnectedApi :: int

text \<open>The conversion of an \<^verbatim>\<open>int\<close> to \<^verbatim>\<open>size_t\<close> (64 bits, wrapping).\<close>

definition size_t_of_int :: "int \<Rightarrow> nat" where
  "size_t_of_int i = nat (i mod 2 ^ 64)"

text \<open>The casts \<^verbatim>\<open>int(...)\<close> and \<^verbatim>\<open>int32_t(...)\<close> of a \<^verbatim>\<open>size_t\<close>: the low 32 bits, read as
  two's complement.\<close>

definition int_of_size_t :: "nat \<Rightarrow> int" where
  "int_of_size_t n =
     (let r = int n mod 2 ^ 32 in if r < 2 ^ 31 then r else r - 2 ^ 32)"

text \<open>Subtraction of two \<^verbatim>\<open>size_t\<close> values, wrapping.\<close>

definition size_t_sub :: "nat \<Rightarrow> nat \<Rightarrow> nat" where
  "size_t_sub a b = nat ((int a - int b) mod 2 ^ 64)"

subsection \<open>Status codes\<close>

text \<open>
  The \<^verbatim>\<open>status_t\<close> values the adapter returns.  \<^verbatim>\<open>ABORTED\<close> is not a status: it stands for
  the end of the process in \<^verbatim>\<open>LOG_ALWAYS_FATAL\<close> and for the dereference of a null
  pointer.
\<close>

datatype status_t = NO_ERROR | NO_INIT | BAD_VALUE | NO_MEMORY | INVALID_OPERATION | ABORTED

datatype fence = NO_FENCE | Fence nat

subsection \<open>Slots\<close>

text \<open>
  Modelled from the spec: \<^verbatim>\<open>BufferState\<close> of \<^verbatim>\<open>gui/BufferSlot.h\<close>, which is not part of the
  sources.  The specification gives the state machine per slot as "Free \<rightarrow> Dequeued \<rightarrow>
  Queued \<rightarrow> Free (normal cycle)", a cancel that "returns a Dequeued buffer to the ready
  list", and a detach after which the slot is "Free/unbound".  Each method moves the
  state along its own arrow and leaves every other state as it is.
\<close>

datatype buffer_state = Free | Dequeued | Queued

text \<open>Modelled from the spec: \<^verbatim>\<open>isFree()\<close>, the slot is in state "Free".\<close>

definition isFree :: "buffer_state \<Rightarrow> bool" where
  "isFree s = (s = Free)"

text \<open>Modelled from the spec: \<^verbatim>\<open>isDequeued()\<close>, the slot is in state "Dequeued".\<close>

definition isDequeued :: "buffer_state \<Rightarrow> bool" where
  "isDequeued s = (s = Dequeued)"

text \<open>Modelled from the spec: \<^verbatim>\<open>isQueued()\<close>, the slot is in state "Queued".\<close>

definition isQueued :: "buffer_state \<Rightarrow> bool" where
  "isQueued s = (s = Queued)"

text \<open>Modelled from the spec: \<^verbatim>\<open>freeQueued()\<close>, the arrow "Queued \<rightarrow> Free" that closes the
  normal cycle.\<close>

fun freeQueued :: "buffer_state \<Rightarrow> buffer_state" where
  "freeQueued Queued = Free"
| "freeQueued s = s"

text \<open>Modelled from the spec: \<^verbatim>\<open>dequeue()\<close>, the arrow "Free \<rightarrow> Dequeued".\<close>

fun dequeue :: "buffer_state \<Rightarrow> buffer_state" where
  "dequeue Free = Dequeued"
| "dequeue s = s"

text \<open>Modelled from the spec: \<^verbatim>\<open>queue()\<close>, the arrow "Dequeued \<rightarrow> Queued".\<close>

fun queue :: "buffer_state \<Rightarrow> buffer_state" where
  "queue Dequeued = Queued"
| "queue s = s"

text \<open>Modelled from the spec: \<^verbatim>\<open>cancel()\<close>, by which a cancel "returns a Dequeued buffer
  to the ready list": the slot is Free again.\<close>

fun cancel :: "buffer_state \<Rightarrow> buffer_state" where
  "cancel Dequeued = Free"
| "cancel s = s"

text \<open>Modelled from the spec: \<^verbatim>\<open>detachProducer()\<close>, the side exit from Dequeued after which
  "subsequent operations on that slot index see Free/unbound state".\<close>

fun detachProducer :: "buffer_state \<Rightarrow> buffer_state" where
  "detachProducer Dequeued = Free"
| "detachProducer s = s"

text \<open>
  A \<^verbatim>\<open>ProducerBuffer\<close> as the adapter sees it: its id, its geometry, the handle it acts
  with on the shared state, and \<^verbatim>\<open>buffer()\<close> with the \<^verbatim>\<open>GraphicBuffer\<close> inside it, either
  of which may be null.  A \<^verbatim>\<open>GraphicBuffer\<close> is referred to by the id of its buffer.
\<close>

datatype ion_buffer = IonBuffer (graphic_buffer: "nat option")

record buffer_producer =
  bp_id :: nat
  bp_width :: nat
  bp_height :: nat
  bp_format :: nat
  bp_handle :: client_handle
  bp_buffer :: "ion_buffer option"

text \<open>The fields of \<^verbatim>\<open>BufferSlot\<close> that \<^verbatim>\<open>BufferHubProducer.cpp\<close> reads or writes in the
  functions below.\<close>

record buffer_slot =
  mGraphicBuffer :: "nat option"
  mBufferState :: buffer_state
  mRequestBufferCalled :: bool
  mFence :: fence
  mIsReallocating :: bool
  mBufferProducer :: "buffer_producer option"

subsection \<open>The crop rectangle and the per-frame metadata\<close>

text \<open>\<^verbatim>\<open>Rect\<close>: four \<^verbatim>\<open>int32_t\<close> edges (\<^verbatim>\<open>top\<close> is written \<open>top_edge\<close> here).\<close>

record rect =
  left :: int
  top_edge :: int
  right :: int
  bottom :: int

text \<open>
  Modelled from the spec: \<^verbatim>\<open>Rect(width, height)\<close> of \<^verbatim>\<open>ui/Rect.h\<close>, which is not part of
  the sources.  "The buffer's bounds" are the rectangle from the origin to (width,
  height).
\<close>

definition Rect_of_size :: "nat \<Rightarrow> nat \<Rightarrow> rect" where
  "Rect_of_size w h = \<lparr>left = 0, top_edge = 0, right = int w, bottom = int h\<rparr>"

text \<open>
  Modelled from the spec: \<^verbatim>\<open>Rect::intersect\<close> of \<^verbatim>\<open>ui/Rect.h\<close>, which is not part of the
  sources.  The intersection takes the inner edge on each side, so that it differs from
  the crop exactly when the crop is clipped ("clipping is rejected, not silently
  clamped").
\<close>

definition intersect :: "rect \<Rightarrow> rect \<Rightarrow> rect" where
  "intersect r with =
     \<lparr>left = max (left r) (left with), top_edge = max (top_edge r) (top_edge with),
      right = min (right r) (right with), bottom = min (bottom r) (bottom with)\<rparr>"

text \<open>The scaling modes of \<^verbatim>\<open>system/window.h\<close>, by name; any other value of the
  \<^verbatim>\<open>int\<close> is \<^verbatim>\<open>UNKNOWN_SCALING_MODE\<close>.\<close>

datatype scaling_mode =
    NATIVE_WINDOW_SCALING_MODE_FREEZE
  | NATIVE_WINDOW_SCALING_MODE_SCALE_TO_WINDOW
  | NATIVE_WINDOW_SCALING_MODE_SCALE_CROP
  | NATIVE_WINDOW_SCALING_MODE_NO_SCALE_CROP
  | UNKNOWN_SCALING_MODE int

text \<open>\<^verbatim>\<open>QueueBufferInput\<close>, as \<^verbatim>\<open>deflate\<close> hands its fields out.  The fence is a pointer
  and may be null.\<close>

record queue_buffer_input =
  in_timestamp :: int
  in_is_auto_timestamp :: bool
  in_dataspace :: int
  in_crop :: rect
  in_scaling_mode :: scaling_mode
  in_transform :: nat
  in_fence :: "fence option"

text \<open>\<^verbatim>\<open>DvrNativeBufferMetadata\<close>, the fields \<^verbatim>\<open>queueBuffer\<close> fills in.\<close>

record metadata =
  timestamp :: int
  is_auto_timestamp :: int
  dataspace :: int
  crop_left :: int
  crop_top :: int
  crop_right :: int
  crop_bottom :: int
  meta_scaling_mode :: scaling_mode
  transform :: int

record queue_buffer_output =
  out_width :: nat
  out_height :: nat
  transformHint :: nat
  numPendingBuffers :: nat
  nextFrameNumber :: nat

subsection \<open>The producer queue behind \<^verbatim>\<open>queue_\<close>\<close>

text \<open>
  Modelled from the spec: the \<^verbatim>\<open>ProducerQueue\<close>, whose code is not part of the sources.
  The specification speaks of a slot table, of "an internal ready list" from which
  dequeue pops "the next available slot", and of an allocation collaborator
  "allocate(width, height, layer_count, format, usage) -> BufferHandle | AllocError"
  that is opaque.  The table maps a slot to the buffer bound to it; the ready list is
  served first in, first out; the collaborator is given a budget of allocations it still
  grants, so that both of its outcomes exist; ids of new buffers are handed out in order.
\<close>

record producer_queue =
  q_slots :: "nat \<Rightarrow> buffer_producer option"
  available :: "nat list"
  next_buffer_id :: nat
  alloc_budget :: nat

text \<open>
  Modelled from the spec: \<^verbatim>\<open>capacity()\<close>, "the number of buffers currently allocated into
  the queue".
\<close>

definition capacity :: "adapter_consts \<Rightarrow> producer_queue \<Rightarrow> nat" where
  "capacity c q = length (filter (\<lambda>s. q_slots q s \<noteq> None) [0..<kMaxQueueCapacity c])"

text \<open>
  Modelled from the spec: \<^verbatim>\<open>Dequeue\<close>, "pop the next available slot from an internal ready
  list (blocking up to timeout)".  The ready list of the model holds what became ready
  before the timeout; an empty list is the timeout.  The result is the slot, the buffer
  bound to it (null if there is none) and the queue left behind.
\<close>

definition Q_Dequeue ::
  "producer_queue \<Rightarrow> (nat \<times> buffer_producer option \<times> producer_queue) option" where
  "Q_Dequeue q =
     (case available q of
        [] \<Rightarrow> None
      | s # rest \<Rightarrow> Some (s, q_slots q s, q\<lparr>available := rest\<rparr>))"

text \<open>
  Modelled from the spec: \<^verbatim>\<open>Enqueue\<close>, which "returns a Dequeued buffer to the ready
  list".
\<close>

definition Q_Enqueue :: "producer_queue \<Rightarrow> buffer_producer option \<Rightarrow> nat \<Rightarrow> producer_queue" where
  "Q_Enqueue q buffer slot = q\<lparr>available := available q @ [slot]\<rparr>"

text \<open>
  Modelled from the spec: the buffer that the allocation collaborator hands back, with
  the requested geometry and the next id; its handle is the first client of its node,
  a producer.
\<close>

definition new_buffer :: "producer_queue \<Rightarrow> nat \<Rightarrow> nat \<Rightarrow> nat \<Rightarrow> buffer_producer" where
  "new_buffer q width height format =
     \<lparr>bp_id = next_buffer_id q, bp_width = width, bp_height = height, bp_format = format,
      bp_handle = \<lparr>client_bit = 1, role = Producer\<rparr>,
      bp_buffer = Some (IonBuffer (Some (next_buffer_id q)))\<rparr>"

text \<open>
  Modelled from the spec: \<^verbatim>\<open>ProducerQueue::AllocateBuffer\<close>, "allocate a new BufferNode of
  the requested geometry into a free slot"; the new buffer is ready at once.  The free
  slot taken is the lowest one.  The call fails when the table has no free slot or the
  collaborator refuses.
\<close>

definition Q_AllocateBuffer ::
  "adapter_consts \<Rightarrow> producer_queue \<Rightarrow> nat \<Rightarrow> nat \<Rightarrow> nat \<Rightarrow> nat \<Rightarrow> nat \<Rightarrow>
     (nat \<times> producer_queue) option" where
  "Q_AllocateBuffer c q width height layer_count format usage =
     (case find (\<lambda>s. q_slots q s = None) [0..<kMaxQueueCapacity c] of
        None \<Rightarrow> None
      | Some slot \<Rightarrow>
          if alloc_budget q = 0 then None
          else Some (slot,
                 q\<lparr>q_slots := (q_slots q)(slot \<mapsto> new_buffer q width height format),
                   available := available q @ [slot],
                   next_buffer_id := Suc (next_buffer_id q),
                   alloc_budget := alloc_budget q - 1\<rparr>))"

text \<open>
  Modelled from the spec: \<^verbatim>\<open>ProducerQueue::RemoveBuffer\<close>, which "removes the BufferNode
  from the queue's slot table"; it fails on a slot that holds no buffer.
\<close>

definition Q_RemoveBuffer :: "producer_queue \<Rightarrow> nat \<Rightarrow> producer_queue option" where
  "Q_RemoveBuffer q slot =
     (if q_slots q slot = None then None else Some (q\<lparr>q_slots := (q_slots q)(slot := None)\<rparr>))"

text \<open>Modelled from the spec: \<^verbatim>\<open>GetBuffer(slot)\<close>, the buffer bound to the slot in the
  table of the queue, null if there is none.\<close>

definition Q_GetBuffer :: "producer_queue \<Rightarrow> nat \<Rightarrow> buffer_producer option" where
  "Q_GetBuffer q slot = q_slots q slot"

subsection \<open>The handle of a detached buffer\<close>

text \<open>
  What a detach hands over.  \<^verbatim>\<open>ProducerBuffer::Detach\<close> returns a \<^verbatim>\<open>LocalChannelHandle\<close>,
  \<^verbatim>\<open>DetachedBufferHandle::Create\<close> wraps it, and
  \<^verbatim>\<open>GraphicBuffer::setDetachedBufferHandle\<close> takes the wrapper and answers with a status.
  None of these is part of the sources, and the specification says only that the buffer
  becomes "a standalone, queue-independent handle the caller now owns".  Whether the
  channel is valid, and the status with which a \<^verbatim>\<open>GraphicBuffer\<close> answers, are therefore
  left open: they are part of the state.
\<close>

text \<open>Modelled from the spec: a \<^verbatim>\<open>LocalChannelHandle\<close>, of which only \<^verbatim>\<open>valid()\<close> matters
  here.\<close>

datatype local_channel_handle = LocalChannelHandle (channel_valid: bool)

text \<open>Modelled from the spec: a \<^verbatim>\<open>DetachedBufferHandle\<close>, the wrapper of the channel of a
  detached buffer.\<close>

record detached_buffer_handle =
  mHubChannel :: local_channel_handle

text \<open>Modelled from the spec: \<^verbatim>\<open>DetachedBufferHandle::Create(handle)\<close>, which wraps the
  channel.\<close>

definition DetachedBufferHandle_Create :: "local_channel_handle \<Rightarrow> detached_buffer_handle" where
  "DetachedBufferHandle_Create channel = \<lparr>mHubChannel = channel\<rparr>"

text \<open>Modelled from the spec: \<^verbatim>\<open>DetachedBufferHandle::isValid()\<close>; the wrapper is valid when
  its channel is.\<close>

definition isValid :: "detached_buffer_handle \<Rightarrow> bool" where
  "isValid handle = channel_valid (mHubChannel handle)"

text \<open>Modelled from the spec: what is seen here of a \<^verbatim>\<open>GraphicBuffer\<close>: the detached handle
  it holds, if any, and the status with which it answers
  \<^verbatim>\<open>setDetachedBufferHandle\<close>.\<close>

record graphic_buffer_object =
  mDetachedBufferHandle :: "detached_buffer_handle option"
  set_handle_status :: status_t

subsection \<open>The state of the adapter\<close>

text \<open>
  The members of \<^verbatim>\<open>BufferHubProducer\<close> that the functions below use, and the shared
  memory their buffers point into: per buffer id, the ownership state, the metadata of
  the last Post, whether the buffer has been detached from its producer/consumer
  set, and the channel that a detach of it returns; and, per \<^verbatim>\<open>GraphicBuffer\<close>, the object
  itself.  \<^verbatim>\<open>buffers_\<close> is an array of \<^verbatim>\<open>kMaxQueueCapacity\<close> slots; it is a function of the
  index here, and a loop over the array runs over the indices below
  \<^verbatim>\<open>kMaxQueueCapacity\<close>.  The members lose their trailing underscore
  (\<^verbatim>\<open>connected_api_\<close> is \<open>connected_api\<close>), and \<^verbatim>\<open>queue_\<close> is \<open>the_queue\<close>.
\<close>

record producer =
  connected_api :: int
  max_buffer_count :: int
  max_dequeued_buffer_count :: int
  buffers :: "nat \<Rightarrow> buffer_slot"
  the_queue :: producer_queue
  hub_state :: "nat \<Rightarrow> ownership_state"
  hub_metadata :: "nat \<Rightarrow> metadata option"
  hub_detached :: "nat \<Rightarrow> bool"
  hub_channel :: "nat \<Rightarrow> local_channel_handle"
  graphic_buffers :: "nat \<Rightarrow> graphic_buffer_object"

text \<open>
  Modelled from the spec: \<^verbatim>\<open>ProducerBuffer::PostAsync\<close>, the \<^verbatim>\<open>Post\<close> transition of the
  buffer's handle together with the metadata "written into the shared metadata region
  as part of the same transition".  A Post that is refused changes nothing.
\<close>

definition PostAsync :: "buffer_producer \<Rightarrow> metadata \<Rightarrow> nat option \<Rightarrow> producer \<Rightarrow> producer" where
  "PostAsync bp meta ready_fence p =
     (case Post (bp_handle bp) ready_fence (hub_state p (bp_id bp)) of
        Inl e \<Rightarrow> p
      | Inr s \<Rightarrow> p\<lparr>hub_state := (hub_state p)(bp_id bp := s),
                    hub_metadata := (hub_metadata p)(bp_id bp \<mapsto> meta)\<rparr>)"

text \<open>
  Modelled from the spec: \<^verbatim>\<open>ProducerBuffer::Detach\<close>, whose body is not part of the
  sources.  The specification lets a detach convert the buffer "into a standalone,
  queue-independent handle"; the precondition is the one that the declaration in
  \<^verbatim>\<open>producer_buffer.h\<close> documents: "Can only be called when a producer buffer has
  exclusive access to the buffer (i.e. in the gain'ed state).  On the successful return
  of the IPC call, a new LocalChannelHandle representing a detached buffer will be
  returned and all existing producer and consumer channels will be closed."  The result
  is the channel and the state after a successful call, or nothing.
\<close>

definition Detach ::
  "buffer_producer \<Rightarrow> producer \<Rightarrow> (local_channel_handle \<times> producer) option" where
  "Detach bp p =
     (if ownership_mask (hub_state p (bp_id bp)) = client_bit (bp_handle bp)
         \<and> client_bit (bp_handle bp) \<noteq> 0 \<and> \<not> hub_detached p (bp_id bp)
      then Some (hub_channel p (bp_id bp),
                 p\<lparr>hub_detached := (hub_detached p)(bp_id bp := True)\<rparr>)
      else None)"

text \<open>
  Modelled from the spec: \<^verbatim>\<open>GraphicBuffer::setDetachedBufferHandle\<close> on the
  \<^verbatim>\<open>GraphicBuffer\<close> \<open>gb\<close>, by which the handle becomes one "the caller now owns": the
  \<^verbatim>\<open>GraphicBuffer\<close> answers with its status, and keeps the handle when that is
  \<^verbatim>\<open>NO_ERROR\<close>.
\<close>

definition setDetachedBufferHandle ::
  "nat \<Rightarrow> detached_buffer_handle \<Rightarrow> producer \<Rightarrow> status_t \<times> producer" where
  "setDetachedBufferHandle gb handle p =
     (let g = graphic_buffers p gb
      in if set_handle_status g = NO_ERROR
         then (NO_ERROR,
               p\<lparr>graphic_buffers :=
                    (graphic_buffers p)(gb := g\<lparr>mDetachedBufferHandle := Some handle\<rparr>)\<rparr>)
         else (set_handle_status g, p))"

subsection \<open>The functions of \<^verbatim>\<open>BufferHubProducer.cpp\<close>\<close>

text \<open>Writing one slot of \<^verbatim>\<open>buffers_\<close>.\<close>

definition set_slot :: "producer \<Rightarrow> nat \<Rightarrow> buffer_slot \<Rightarrow> producer" where
  "set_slot p slot v = p\<lparr>buffers := (buffers p)(slot := v)\<rparr>"

text \<open>
  \<^verbatim>\<open>requestBuffer(slot, buf)\<close>: the status, the value written to \<^verbatim>\<open>*buf\<close> (if the call
  gets that far) and the state after the call.
\<close>

definition requestBuffer ::
  "adapter_consts \<Rightarrow> producer \<Rightarrow> int \<Rightarrow> status_t \<times> nat option \<times> producer" where
  "requestBuffer c p slot =
     (if connected_api p = kNoConnectedApi c then (NO_INIT, None, p)
      else if slot < 0 \<or> slot \<ge> max_buffer_count p then (BAD_VALUE, None, p)
      else if \<not> isDequeued (mBufferState (buffers p (nat slot))) then (BAD_VALUE, None, p)
      else if mGraphicBuffer (buffers p (nat slot)) \<noteq> None then (BAD_VALUE, None, p)
      else
        (case mBufferProducer (buffers p (nat slot)) of
           None \<Rightarrow> (BAD_VALUE, None, p)
         | Some buffer_producer \<Rightarrow>
             (case bp_buffer buffer_producer of
                None \<Rightarrow> (ABORTED, None, p)
              | Some ion \<Rightarrow>
                  (NO_ERROR, graphic_buffer ion,
                   set_slot p (nat slot)
                     ((buffers p (nat slot))
                        \<lparr>mGraphicBuffer := graphic_buffer ion,
                         mRequestBufferCalled := True\<rparr>)))))"

text \<open>
  \<^verbatim>\<open>setMaxDequeuedBufferCount(max_dequeued_buffers)\<close>.  The upper bound is
  \<^verbatim>\<open>int(BufferHubQueue::kMaxQueueCapacity - kDefaultUndequeuedBuffers)\<close>: the \<^verbatim>\<open>int\<close> is
  converted to \<^verbatim>\<open>size_t\<close>, the difference wraps, and the cast keeps 32 bits.
\<close>

definition dequeued_count :: "adapter_consts \<Rightarrow> producer \<Rightarrow> int" where
  "dequeued_count c p =
     int (length (filter (\<lambda>i. isDequeued (mBufferState (buffers p i)))
                         [0..<kMaxQueueCapacity c]))"

definition setMaxDequeuedBufferCount ::
  "adapter_consts \<Rightarrow> producer \<Rightarrow> int \<Rightarrow> status_t \<times> producer" where
  "setMaxDequeuedBufferCount c p max_dequeued_buffers =
     (if max_dequeued_buffers \<le> 0 \<or>
         max_dequeued_buffers >
           int_of_size_t (size_t_sub (kMaxQueueCapacity c)
                                     (size_t_of_int (kDefaultUndequeuedBuffers c)))
      then (BAD_VALUE, p)
      else if dequeued_count c p > max_dequeued_buffers then (BAD_VALUE, p)
      else (NO_ERROR, p\<lparr>max_dequeued_buffer_count := max_dequeued_buffers\<rparr>))"

text \<open>
  \<^verbatim>\<open>AllocateBuffer(width, height, layer_count, format, usage)\<close>: asks the queue for a new
  buffer and binds it to the slot the queue chose.
\<close>

definition AllocateBuffer ::
  "adapter_consts \<Rightarrow> producer \<Rightarrow> nat \<Rightarrow> nat \<Rightarrow> nat \<Rightarrow> nat \<Rightarrow> nat \<Rightarrow> status_t \<times> producer" where
  "AllocateBuffer c p width height layer_count format usage =
     (case Q_AllocateBuffer c (the_queue p) width height layer_count format usage of
        None \<Rightarrow> (NO_MEMORY, p)
      | Some (slot, q) \<Rightarrow>
          (case Q_GetBuffer q slot of
             None \<Rightarrow> (ABORTED, p\<lparr>the_queue := q\<rparr>)
           | Some buffer_producer \<Rightarrow>
               (NO_ERROR,
                set_slot (p\<lparr>the_queue := q\<rparr>) slot
                  ((buffers p slot)\<lparr>mBufferProducer := Some buffer_producer\<rparr>))))"

text \<open>
  \<^verbatim>\<open>RemoveBuffer(slot)\<close>: takes the buffer out of the queue and resets what the slot
  remembers about it.  \<^verbatim>\<open>mIsReallocating\<close> is not among the fields it resets.
\<close>

definition RemoveBuffer :: "producer \<Rightarrow> nat \<Rightarrow> status_t \<times> producer" where
  "RemoveBuffer p slot =
     (case Q_RemoveBuffer (the_queue p) slot of
        None \<Rightarrow> (INVALID_OPERATION, p)
      | Some q \<Rightarrow>
          (NO_ERROR,
           set_slot (p\<lparr>the_queue := q\<rparr>) slot
             ((buffers p slot)
                \<lparr>mBufferProducer := None,
                 mBufferState := detachProducer (mBufferState (buffers p slot)),
                 mFence := NO_FENCE,
                 mGraphicBuffer := None,
                 mRequestBufferCalled := False\<rparr>)))"

text \<open>
  The body of the loop of \<^verbatim>\<open>dequeueBuffer\<close>, from the call of \<^verbatim>\<open>queue_->Dequeue\<close> to the
  second \<^verbatim>\<open>AllocateBuffer\<close>.  Its result says how the body was left (by a \<^verbatim>\<open>return\<close>
  with a status, by the \<^verbatim>\<open>break\<close>, or at its end), the value of \<^verbatim>\<open>slot\<close> and the state
  at that point, and whether the buffer popped had a geometry other than the requested
  one (the branch "Needs reallocation").  The result of \<^verbatim>\<open>RemoveBuffer\<close> is not looked at,
  as in the source.
\<close>

datatype body_exit = Body_return status_t | Body_break | Body_end

record body_result =
  b_exit :: body_exit
  b_slot :: nat
  b_mismatch :: bool
  b_state :: producer

definition loop_body ::
  "adapter_consts \<Rightarrow> nat \<Rightarrow> nat \<Rightarrow> nat \<Rightarrow> nat \<Rightarrow> nat \<Rightarrow> producer \<Rightarrow> body_result" where
  "loop_body c width height format usage slot p =
     (case Q_Dequeue (the_queue p) of
        None \<Rightarrow>
          \<lparr>b_exit = Body_return NO_MEMORY, b_slot = slot, b_mismatch = False, b_state = p\<rparr>
      | Some (slot', buffer_status, q) \<Rightarrow>
          (case buffer_status of
             None \<Rightarrow>
               \<lparr>b_exit = Body_return NO_MEMORY, b_slot = slot', b_mismatch = False,
                b_state = p\<lparr>the_queue := q\<rparr>\<rparr>
           | Some buffer_producer \<Rightarrow>
               if width = bp_width buffer_producer \<and> height = bp_height buffer_producer
                  \<and> format = bp_format buffer_producer
               then
                 \<lparr>b_exit = Body_break, b_slot = slot', b_mismatch = False,
                  b_state = p\<lparr>the_queue := q\<rparr>\<rparr>
               else
                 (let p1 = set_slot (p\<lparr>the_queue := q\<rparr>) slot'
                             ((buffers p slot')\<lparr>mIsReallocating := True\<rparr>);
                      p2 = snd (RemoveBuffer p1 slot');
                      (ret, p3) = AllocateBuffer c p2 width height 1 format usage
                  in if ret \<noteq> NO_ERROR then
                       \<lparr>b_exit = Body_return ret, b_slot = slot', b_mismatch = True,
                        b_state = p3\<rparr>
                     else
                       \<lparr>b_exit = Body_end, b_slot = slot', b_mismatch = True,
                        b_state = p3\<rparr>)))"

text \<open>
  The loop itself, "for (size_t retry = 0; retry < BufferHubQueue::kMaxQueueCapacity;
  retry++)".  Its result says how the loop was left (by a \<^verbatim>\<open>return\<close>, by the \<^verbatim>\<open>break\<close>,
  or because the condition failed), the value of \<^verbatim>\<open>slot\<close> at that point and the state.
  Two more components record the run: how many times the body was entered, and the
  slots that were popped with a geometry other than the requested one, in order.
\<close>

datatype loop_exit = Return status_t | Break | Exhausted

record loop_result =
  lr_exit :: loop_exit
  lr_slot :: nat
  lr_iterations :: nat
  lr_reallocated :: "nat list"
  lr_state :: producer

function dequeue_loop ::
  "adapter_consts \<Rightarrow> nat \<Rightarrow> nat \<Rightarrow> nat \<Rightarrow> nat \<Rightarrow> nat \<Rightarrow> nat \<Rightarrow> producer \<Rightarrow> loop_result" where
  "dequeue_loop c width height format usage retry slot p =
     (if retry < kMaxQueueCapacity c then
        (let b = loop_body c width height format usage slot p;
             popped = (if b_mismatch b then [b_slot b] else [])
         in case b_exit b of
              Body_return ret \<Rightarrow>
                \<lparr>lr_exit = Return ret, lr_slot = b_slot b, lr_iterations = 1,
                 lr_reallocated = popped, lr_state = b_state b\<rparr>
            | Body_break \<Rightarrow>
                \<lparr>lr_exit = Break, lr_slot = b_slot b, lr_iterations = 1,
                 lr_reallocated = popped, lr_state = b_state b\<rparr>
            | Body_end \<Rightarrow>
                (let r = dequeue_loop c width height format usage (Suc retry)
                           (b_slot b) (b_state b)
                 in r\<lparr>lr_iterations := Suc (lr_iterations r),
                      lr_reallocated := popped @ lr_reallocated r\<rparr>))
      else
        \<lparr>lr_exit = Exhausted, lr_slot = slot, lr_iterations = 0,
         lr_reallocated = [], lr_state = p\<rparr>)"
  by pat_completeness auto
termination
  by (relation "measure (\<lambda>(c, width, height, format, usage, retry, slot, p).
                   kMaxQueueCapacity c - retry)") auto

declare dequeue_loop.simps [simp del]

text \<open>
  What a successful \<^verbatim>\<open>dequeueBuffer\<close> hands back: \<^verbatim>\<open>*out_slot\<close>, \<^verbatim>\<open>*out_fence\<close>, and whether
  \<^verbatim>\<open>BUFFER_NEEDS_REALLOCATION\<close> is or-ed into the \<^verbatim>\<open>NO_ERROR\<close> it returns.  The result of
  a call is that or the status of a failure, and the state after the call; it also
  carries the record of the loop's run (the number of times the body was entered, the
  slots popped with another geometry) and whether the loop was left by its \<^verbatim>\<open>break\<close>.
\<close>

record dequeue_output =
  out_slot :: nat
  out_fence :: fence
  needs_reallocation :: bool

record dequeue_return =
  dq_result :: "status_t + dequeue_output"
  dq_iterations :: nat
  dq_reallocated :: "nat list"
  dq_matched :: bool
  dq_state :: producer

text \<open>
  The test before the loop, "int32_t(queue_->capacity()) < max_dequeued_buffer_count_ +
  kDefaultUndequeuedBuffers".  The sum of the two \<^verbatim>\<open>int\<close>s is taken as it is:
  \<^verbatim>\<open>setMaxDequeuedBufferCount\<close> keeps the first far from the range where it could
  overflow.
\<close>

definition lazy_allocation_due :: "adapter_consts \<Rightarrow> producer \<Rightarrow> bool" where
  "lazy_allocation_due c p \<longleftrightarrow>
     int_of_size_t (capacity c (the_queue p))
       < max_dequeued_buffer_count p + kDefaultUndequeuedBuffers c"

text \<open>
  What \<^verbatim>\<open>dequeueBuffer\<close> does after the loop: \<^verbatim>\<open>LOG_ALWAYS_FATAL_IF\<close> the slot is neither
  free nor queued; \<^verbatim>\<open>freeQueued()\<close> and \<^verbatim>\<open>dequeue()\<close> on the slot's state; the out
  parameters; and the flag, or-ed into the status if the slot is marked, with the mark
  cleared.
\<close>

definition dequeue_finish :: "loop_result \<Rightarrow> dequeue_return" where
  "dequeue_finish r =
     (let slot = lr_slot r; p = lr_state r; st = mBufferState (buffers p slot)
      in if \<not> isFree st \<and> \<not> isQueued st then
           \<lparr>dq_result = Inl ABORTED, dq_iterations = lr_iterations r,
            dq_reallocated = lr_reallocated r, dq_matched = (lr_exit r = Break),
            dq_state = p\<rparr>
         else
           (let p1 = set_slot p slot
                       ((buffers p slot)\<lparr>mBufferState := dequeue (freeQueued st)\<rparr>)
            in if mIsReallocating (buffers p1 slot) then
                 \<lparr>dq_result = Inr \<lparr>out_slot = slot, out_fence = NO_FENCE,
                                    needs_reallocation = True\<rparr>,
                  dq_iterations = lr_iterations r, dq_reallocated = lr_reallocated r,
                  dq_matched = (lr_exit r = Break),
                  dq_state = set_slot p1 slot ((buffers p1 slot)\<lparr>mIsReallocating := False\<rparr>)\<rparr>
               else
                 \<lparr>dq_result = Inr \<lparr>out_slot = slot, out_fence = NO_FENCE,
                                    needs_reallocation = False\<rparr>,
                  dq_iterations = lr_iterations r, dq_reallocated = lr_reallocated r,
                  dq_matched = (lr_exit r = Break),
                  dq_state = p1\<rparr>))"

text \<open>\<^verbatim>\<open>dequeueBuffer\<close> from the loop on: a \<^verbatim>\<open>return\<close> inside the loop ends the call,
  anything else leads to the part after the loop.\<close>

definition dequeue_from_loop ::
  "adapter_consts \<Rightarrow> producer \<Rightarrow> nat \<Rightarrow> nat \<Rightarrow> nat \<Rightarrow> nat \<Rightarrow> dequeue_return" where
  "dequeue_from_loop c p width height format usage =
     (let r = dequeue_loop c width height format usage 0 0 p
      in case lr_exit r of
           Return ret \<Rightarrow>
             \<lparr>dq_result = Inl ret, dq_iterations = lr_iterations r,
              dq_reallocated = lr_reallocated r, dq_matched = False, dq_state = lr_state r\<rparr>
         | _ \<Rightarrow> dequeue_finish r)"

text \<open>
  \<^verbatim>\<open>dequeueBuffer(out_slot, out_fence, width, height, format, usage, ...)\<close>: the check
  of the connection, the lazy allocation "when the capacity of |queue_| has not reached
  |max_dequeued_buffer_count_|", the loop, and what follows it.
\<close>

definition dequeueBuffer ::
  "adapter_consts \<Rightarrow> producer \<Rightarrow> nat \<Rightarrow> nat \<Rightarrow> nat \<Rightarrow> nat \<Rightarrow> dequeue_return" where
  "dequeueBuffer c p width height format usage =
     (if connected_api p = kNoConnectedApi c then
        \<lparr>dq_result = Inl NO_INIT, dq_iterations = 0, dq_reallocated = [],
         dq_matched = False, dq_state = p\<rparr>
      else if lazy_allocation_due c p then
        (case AllocateBuffer c p width height 1 format usage of
           (ret, p1) \<Rightarrow>
             if ret \<noteq> NO_ERROR then
               \<lparr>dq_result = Inl ret, dq_iterations = 0, dq_reallocated = [],
                dq_matched = False, dq_state = p1\<rparr>
             else dequeue_from_loop c p1 width height format usage)
      else dequeue_from_loop c p width height format usage)"

text \<open>
  The state in which \<^verbatim>\<open>dequeueBuffer\<close> enters its loop: the state of the call, after the
  lazy allocation where one is due.  There is none when the call returns before the
  loop.
\<close>

definition loop_entry ::
  "adapter_consts \<Rightarrow> producer \<Rightarrow> nat \<Rightarrow> nat \<Rightarrow> nat \<Rightarrow> nat \<Rightarrow> producer option" where
  "loop_entry c p width height format usage =
     (if connected_api p = kNoConnectedApi c then None
      else if lazy_allocation_due c p then
        (case AllocateBuffer c p width height 1 format usage of
           (ret, p1) \<Rightarrow> if ret \<noteq> NO_ERROR then None else Some p1)
      else Some p)"

text \<open>
  The value of \<^verbatim>\<open>slot\<close> and the state with which the loop, entered in state \<open>p\<close>, starts
  its iteration number \<open>k\<close> (counting from 0), if it gets that far.
\<close>

fun iteration_state ::
  "adapter_consts \<Rightarrow> nat \<Rightarrow> nat \<Rightarrow> nat \<Rightarrow> nat \<Rightarrow> producer \<Rightarrow> nat \<Rightarrow> (nat \<times> producer) option" where
  "iteration_state c width height format usage p 0 = Some (0, p)"
| "iteration_state c width height format usage p (Suc k) =
     (case iteration_state c width height format usage p k of
        None \<Rightarrow> None
      | Some (slot, pk) \<Rightarrow>
          if k < kMaxQueueCapacity c
             \<and> b_exit (loop_body c width height format usage slot pk) = Body_end
          then Some (b_slot (loop_body c width height format usage slot pk),
                     b_state (loop_body c width height format usage slot pk))
          else None)"

text \<open>
  \<^verbatim>\<open>queueBuffer(slot, input, output)\<close>.  \<open>has_output\<close> says that the \<^verbatim>\<open>output\<close> pointer is
  not null.  The checks come in the order of the source: the output pointer, the
  scaling mode, the fence, then (under the lock) the connection, the slot index, the
  slot's state, whether the buffer was requested, and the crop.
\<close>

definition queueBuffer ::
  "adapter_consts \<Rightarrow> producer \<Rightarrow> int \<Rightarrow> queue_buffer_input \<Rightarrow> bool \<Rightarrow>
     status_t \<times> queue_buffer_output option \<times> producer" where
  "queueBuffer c p slot input has_output =
     (if \<not> has_output then (BAD_VALUE, None, p)
      else if (case in_scaling_mode input of UNKNOWN_SCALING_MODE m \<Rightarrow> True | _ \<Rightarrow> False)
        then (BAD_VALUE, None, p)
      else
        (case in_fence input of
           None \<Rightarrow> (BAD_VALUE, None, p)
         | Some fence \<Rightarrow>
             if connected_api p = kNoConnectedApi c then (NO_INIT, None, p)
             else if slot < 0 \<or> slot \<ge> max_buffer_count p then (BAD_VALUE, None, p)
             else if \<not> isDequeued (mBufferState (buffers p (nat slot)))
               then (BAD_VALUE, None, p)
             else if \<not> mRequestBufferCalled (buffers p (nat slot))
                     \<or> mGraphicBuffer (buffers p (nat slot)) = None
               then (BAD_VALUE, None, p)
             else
               (case mBufferProducer (buffers p (nat slot)) of
                  None \<Rightarrow> (ABORTED, None, p)
                | Some buffer_producer \<Rightarrow>
                    (let crop = in_crop input;
                         buffer_rect = Rect_of_size (bp_width buffer_producer)
                                                    (bp_height buffer_producer);
                         cropped_rect = intersect crop buffer_rect
                     in if cropped_rect \<noteq> crop then (BAD_VALUE, None, p)
                        else
                          (let fence_fd = (case fence of NO_FENCE \<Rightarrow> None | Fence fd \<Rightarrow> Some fd);
                               meta_data =
                                 \<lparr>timestamp = in_timestamp input,
                                  is_auto_timestamp = (if in_is_auto_timestamp input then 1 else 0),
                                  dataspace = in_dataspace input,
                                  crop_left = left crop, crop_top = top_edge crop,
                                  crop_right = right crop, crop_bottom = bottom crop,
                                  meta_scaling_mode = in_scaling_mode input,
                                  transform = int_of_size_t (in_transform input)\<rparr>;
                               p1 = PostAsync buffer_producer meta_data fence_fd p;
                               p2 = set_slot p1 (nat slot)
                                      ((buffers p1 (nat slot))
                                         \<lparr>mBufferState := queue (mBufferState (buffers p1 (nat slot)))\<rparr>)
                           in (NO_ERROR,
                               Some \<lparr>out_width = bp_width buffer_producer,
                                     out_height = bp_height buffer_producer,
                                     transformHint = 0, numPendingBuffers = 0,
                                     nextFrameNumber = 0\<rparr>,
                               p2))))))"

text \<open>\<^verbatim>\<open>cancelBuffer(slot, fence)\<close>; the fence is a pointer and may be null.\<close>

definition cancelBuffer ::
  "adapter_consts \<Rightarrow> producer \<Rightarrow> int \<Rightarrow> fence option \<Rightarrow> status_t \<times> producer" where
  "cancelBuffer c p slot fence =
     (if connected_api p = kNoConnectedApi c then (NO_INIT, p)
      else if slot < 0 \<or> slot \<ge> max_buffer_count p then (BAD_VALUE, p)
      else if \<not> isDequeued (mBufferState (buffers p (nat slot))) then (BAD_VALUE, p)
      else
        (case fence of
           None \<Rightarrow> (BAD_VALUE, p)
         | Some f \<Rightarrow>
             (let buffer_producer = mBufferProducer (buffers p (nat slot));
                  p1 = p\<lparr>the_queue := Q_Enqueue (the_queue p) buffer_producer (nat slot)\<rparr>
              in (NO_ERROR,
                  set_slot p1 (nat slot)
                    ((buffers p1 (nat slot))
                       \<lparr>mBufferState := cancel (mBufferState (buffers p1 (nat slot))),
                        mFence := f\<rparr>)))))"

text \<open>
  \<^verbatim>\<open>DetachBufferLocked(slot)\<close>, with \<^verbatim>\<open>slot\<close> a \<^verbatim>\<open>size_t\<close>.  After the queue has let the
  buffer go, the buffer is detached from its producer/consumer set, the channel is
  wrapped into a \<^verbatim>\<open>DetachedBufferHandle\<close>, and the status of the call is the one with
  which the \<^verbatim>\<open>GraphicBuffer\<close> takes that handle.
\<close>

definition DetachBufferLocked :: "adapter_consts \<Rightarrow> producer \<Rightarrow> nat \<Rightarrow> status_t \<times> producer" where
  "DetachBufferLocked c p slot =
     (if connected_api p = kNoConnectedApi c then (NO_INIT, p)
      else if slot \<ge> size_t_of_int (max_buffer_count p) then (BAD_VALUE, p)
      else if \<not> isDequeued (mBufferState (buffers p slot)) then (BAD_VALUE, p)
      else if \<not> mRequestBufferCalled (buffers p slot) then (BAD_VALUE, p)
      else
        (case Q_GetBuffer (the_queue p) slot of
           None \<Rightarrow> (BAD_VALUE, p)
         | Some buffer_producer \<Rightarrow>
             (case bp_buffer buffer_producer of
                None \<Rightarrow> (BAD_VALUE, p)
              | Some ion \<Rightarrow>
                  (case graphic_buffer ion of
                     None \<Rightarrow> (BAD_VALUE, p)
                   | Some gb \<Rightarrow>
                       (case RemoveBuffer p slot of
                          (error, p1) \<Rightarrow>
                            if error \<noteq> NO_ERROR then (error, p1)
                            else
                              (case Detach buffer_producer p1 of
                                 None \<Rightarrow> (BAD_VALUE, p1)
                               | Some (status_or_handle, p2) \<Rightarrow>
                                   (let handle = DetachedBufferHandle_Create status_or_handle
                                    in if \<not> isValid handle then (BAD_VALUE, p2)
                                       else setDetachedBufferHandle gb handle p2)))))))"

text \<open>\<^verbatim>\<open>detachBuffer(slot)\<close>: the \<^verbatim>\<open>int\<close> is cast to \<^verbatim>\<open>size_t\<close>.\<close>

definition detachBuffer :: "adapter_consts \<Rightarrow> producer \<Rightarrow> int \<Rightarrow> status_t \<times> producer" where
  "detachBuffer c p slot = DetachBufferLocked c p (size_t_of_int slot)"

subsection \<open>Notions used to state the properties\<close>

text \<open>A crop extends outside the bounds of a buffer of the given size when one of its
  edges lies beyond the matching edge of the bounds.\<close>

definition extends_outside :: "rect \<Rightarrow> nat \<Rightarrow> nat \<Rightarrow> bool" where
  "extends_outside crop w h \<longleftrightarrow>
     left crop < 0 \<or> top_edge crop < 0 \<or> right crop > int w \<or> bottom crop > int h"

text \<open>The geometry of a buffer is the requested one.\<close>

definition has_geometry :: "buffer_producer \<Rightarrow> nat \<Rightarrow> nat \<Rightarrow> nat \<Rightarrow> bool" where
  "has_geometry b w h f \<longleftrightarrow> bp_width b = w \<and> bp_height b = h \<and> bp_format b = f"

text \<open>The state in the middle of the loop body when slot \<open>s\<close>, the head of the ready
  list, held a buffer of another geometry: the slot is marked and \<^verbatim>\<open>RemoveBuffer\<close> is done,
  the new buffer not yet allocated.\<close>

definition after_removal :: "producer \<Rightarrow> nat \<Rightarrow> nat list \<Rightarrow> producer" where
  "after_removal p s rest =
     p\<lparr>the_queue := (the_queue p)
           \<lparr>available := rest, q_slots := (q_slots (the_queue p))(s := None)\<rparr>,
       buffers := (buffers p)
         (s := (buffers p s)
            \<lparr>mIsReallocating := True,
             mBufferProducer := None,
             mBufferState := detachProducer (mBufferState (buffers p s)),
             mFence := NO_FENCE, mGraphicBuffer := None, mRequestBufferCalled := False\<rparr>)\<rparr>"



text \<open>A slot is bound, in the queue and in the adapter alike, to a buffer of the requested
  geometry whose id is \<open>n0\<close> or later (a buffer allocated after \<open>n0\<close> was the next id).\<close>

definition rebound :: "producer \<Rightarrow> nat \<Rightarrow> nat \<Rightarrow> nat \<Rightarrow> nat \<Rightarrow> nat \<Rightarrow> bool" where
  "rebound p s w h f n0 \<longleftrightarrow>
     (\<exists>b. q_slots (the_queue p) s = Some b \<and> mBufferProducer (buffers p s) = Some b \<and>
          has_geometry b w h f \<and> n0 \<le> bp_id b)"

text \<open>The occupied slots of a queue are exactly the slots below \<open>n\<close>; the occupied slots
  of a queue have no gap.\<close>

definition occupied_below :: "producer_queue \<Rightarrow> nat \<Rightarrow> bool" where
  "occupied_below q n \<longleftrightarrow> (\<forall>i. (q_slots q i \<noteq> None) = (i < n))"

definition no_gap :: "producer_queue \<Rightarrow> bool" where
  "no_gap q \<longleftrightarrow> (\<exists>n. occupied_below q n)"





subsection \<open>A concrete adapter\<close>

text \<open>
  Concrete values on which the properties are tried out: a choice of the constants, a
  connected producer whose queue is still empty (every buffer it may come to allocate
  starts out gained by its producer, whose client bit is 1), and the states that a
  dequeue of a 50 by 50 buffer, a request and a cancel lead to from there.
\<close>

definition example_consts :: adapter_consts where
  "example_consts =
     \<lparr>kMaxQueueCapacity = 64, kDefaultUndequeuedBuffers = 1, kNoConnectedApi = - 1\<rparr>"

definition empty_slot :: buffer_slot where
  "empty_slot =
     \<lparr>mGraphicBuffer = None, mBufferState = Free, mRequestBufferCalled = False,
      mFence = NO_FENCE, mIsReallocating = False, mBufferProducer = None\<rparr>"

definition fresh_producer :: producer where
  "fresh_producer =
     \<lparr>connected_api = 1, max_buffer_count = 64, max_dequeued_buffer_count = 1,
      buffers = (\<lambda>slot. empty_slot),
      the_queue = \<lparr>q_slots = (\<lambda>slot. None), available = [], next_buffer_id = 0,
                    alloc_budget = 8\<rparr>,
      hub_state = (\<lambda>id. \<lparr>ownership_mask = 1, generation = 0, pending_fence = None\<rparr>),
      hub_metadata = (\<lambda>id. None),
      hub_detached = (\<lambda>id. False),
      hub_channel = (\<lambda>id. LocalChannelHandle True),
      graphic_buffers = (\<lambda>gb. \<lparr>mDetachedBufferHandle = None, set_handle_status = NO_ERROR\<rparr>)\<rparr>"

definition after_dequeue :: producer where
  "after_dequeue = dq_state (dequeueBuffer example_consts fresh_producer 50 50 1 0)"

definition after_request :: producer where
  "after_request = snd (snd (requestBuffer example_consts after_dequeue 0))"

definition after_cancel :: producer where
  "after_cancel = snd (cancelBuffer example_consts after_request 0 (Some NO_FENCE))"

definition two_dequeued :: producer where
  "two_dequeued =
     dq_state (dequeueBuffer example_consts
       (dq_state (dequeueBuffer example_consts
          (snd (setMaxDequeuedBufferCount example_consts fresh_producer 2)) 50 50 1 0))
       50 50 1 0)"

definition example_buffer :: buffer_producer where
  "example_buffer =
     \<lparr>bp_id = 0, bp_width = 50, bp_height = 50, bp_format = 1,
      bp_handle = \<lparr>client_bit = 1, role = Producer\<rparr>,
      bp_buffer = Some (IonBuffer (Some 0))\<rparr>"

definition example_input :: "rect \<Rightarrow> queue_buffer_input" where
  "example_input crop =
     \<lparr>in_timestamp = 1000, in_is_auto_timestamp = False, in_dataspace = 0,
      in_crop = crop, in_scaling_mode = NATIVE_WINDOW_SCALING_MODE_FREEZE,
      in_transform = 0, in_fence = Some NO_FENCE\<rparr>"

definition both_dequeued :: producer where
  "both_dequeued = dq_state (dequeueBuffer example_consts after_dequeue 50 50 1 0)"

definition one_ready :: producer where
  "one_ready = snd (cancelBuffer example_consts both_dequeued 0 (Some NO_FENCE))"

definition out_of_budget :: "producer \<Rightarrow> producer" where
  "out_of_budget p = p\<lparr>the_queue := (the_queue p)\<lparr>alloc_budget := 0\<rparr>\<rparr>"






section \<open>Properties of the client registry\<close>

lemma scan_zero_bit_Some_iff:
  "scan_zero_bit k i m = Some j \<longleftrightarrow>
     i \<le> j \<and> j < i + k \<and> \<not> bit m j \<and> (\<forall>l. i \<le> l \<and> l < j \<longrightarrow> bit m l)"
proof (induction k i m rule: scan_zero_bit.induct)
  case (1 i m)
  show ?case by simp
next
  case (2 k i m)
  show ?case
  proof (cases "bit m i")
    case True
    have "(Suc i \<le> j \<and> j < Suc i + k \<and> \<not> bit m j \<and> (\<forall>l. Suc i \<le> l \<and> l < j \<longrightarrow> bit m l))
        \<longleftrightarrow> (i \<le> j \<and> j < i + Suc k \<and> \<not> bit m j \<and> (\<forall>l. i \<le> l \<and> l < j \<longrightarrow> bit m l))"
      using True by (metis Suc_leD Suc_leI add_Suc add_Suc_right le_neq_implies_less)
    with 2 True show ?thesis by simp
  next
    case False
    then show ?thesis
      by (auto simp: not_less dest: leD)
  qed
qed

lemma scan_zero_bit_None_iff:
  "scan_zero_bit k i m = None \<longleftrightarrow> (\<forall>j. i \<le> j \<and> j < i + k \<longrightarrow> bit m j)"
proof (induction k i m rule: scan_zero_bit.induct)
  case (1 i m)
  show ?case by auto
next
  case (2 k i m)
  show ?case
  proof (cases "bit m i")
    case True
    have "(\<forall>j. Suc i \<le> j \<and> j < Suc i + k \<longrightarrow> bit m j) \<longleftrightarrow> (\<forall>j. i \<le> j \<and> j < i + Suc k \<longrightarrow> bit m j)"
      using True by (metis Suc_leD Suc_leI add_Suc add_Suc_right le_neq_implies_less)
    with 2 True show ?thesis by simp
  next
    case False
    then show ?thesis by auto
  qed
qed

lemma scan_mask: "n < 64 \<Longrightarrow> scan_zero_bit 64 0 (mask n :: 64 word) = Some n"
  by (simp add: scan_zero_bit_Some_iff bit_mask_iff)

lemma scan_full: "scan_zero_bit 64 0 (- 1 :: 64 word) = None"
  by (simp add: scan_zero_bit_None_iff)

lemma acquire_bit_mask:
  "n < 64 \<Longrightarrow> acquire_bit \<lparr>active_clients_mask = mask n, last_error = e\<rparr>
     = (push_bit n 1, \<lparr>active_clients_mask = mask (Suc n), last_error = e\<rparr>)"
  by (simp add: acquire_bit_def scan_mask mask_Suc_exp or.commute)

lemma acquire_many_mask:
  "k + n \<le> 64 \<Longrightarrow> acquire_many n \<lparr>active_clients_mask = mask k, last_error = e\<rparr>
     = (map (\<lambda>i. push_bit i 1) [k..<k + n], \<lparr>active_clients_mask = mask (k + n), last_error = e\<rparr>)"
proof (induction n arbitrary: k)
  case 0
  show ?case by simp
next
  case (Suc n)
  then have "k < 64" and "Suc k + n \<le> 64" by simp_all
  then show ?case
    using Suc.IH [of "Suc k"] by (simp add: acquire_bit_mask upt_rec [of k])
qed

lemma mask_64_full: "(mask 64 :: 64 word) = - 1"
  by (rule bit_word_eqI) (simp add: bit_mask_iff)

lemma count_bits_full: "count_bits (- 1) = 64"
  by (simp add: count_bits_def)

lemma push_bit_one_nonzero: "i < 64 \<Longrightarrow> push_bit i (1 :: 64 word) \<noteq> 0"
  by (simp add: push_bit_eq_mult)

text \<open>
  Claim C2.  Start from an empty registry (whatever its error field holds) and call
  \<^verbatim>\<open>acquire_bit\<close> 64 times: all 64 calls succeed (none returns 0) and the mask then has
  64 bits set.  The 65th call returns 0, records the out-of-capacity error and leaves the
  mask as it was, still with exactly 64 bits set.
\<close>

theorem acquire_bit_65th_fails:
  "case acquire_many 64 \<lparr>active_clients_mask = 0, last_error = e\<rparr> of (bs, r) \<Rightarrow>
     length bs = 64 \<and> 0 \<notin> set bs \<and> count_bits (active_clients_mask r) = 64 \<and>
     fst (acquire_bit r) = 0 \<and>
     last_error (snd (acquire_bit r)) = Some OutOfCapacity \<and>
     active_clients_mask (snd (acquire_bit r)) = active_clients_mask r \<and>
     count_bits (active_clients_mask (snd (acquire_bit r))) = 64"
proof -
  have run: "acquire_many 64 \<lparr>active_clients_mask = 0, last_error = e\<rparr>
      = (map (\<lambda>i. push_bit i 1) [0..<64], \<lparr>active_clients_mask = - 1, last_error = e\<rparr>)"
    using acquire_many_mask [of 0 64 e] by (simp add: mask_64_full)
  have nz: "0 \<notin> set (map (\<lambda>i. push_bit i (1 :: 64 word)) [0..<64])"
    using push_bit_one_nonzero by (auto simp del: upt_Suc)
  have full: "acquire_bit \<lparr>active_clients_mask = - 1, last_error = e\<rparr>
      = (0, \<lparr>active_clients_mask = - 1, last_error = Some OutOfCapacity\<rparr>)"
    by (simp add: acquire_bit_def scan_full)
  show ?thesis
    unfolding run using nz by (simp add: full count_bits_full del: upt_Suc)
qed

lemma single_bit_disjoint:
  "\<not> bit m i \<Longrightarrow> push_bit i (1 :: 64 word) AND m = 0"
  by (rule bit_word_eqI) (auto simp: bit_and_iff bit_exp_iff)

lemma acquire_bit_fresh:
  assumes "acquire_bit r = (b, r')" and "b \<noteq> 0"
  shows "b AND active_clients_mask r = 0"
    and "active_clients_mask r' = active_clients_mask r OR b"
    and "last_error r' = last_error r"
    and "\<exists>i<64. b = push_bit i 1 \<and> \<not> bit (active_clients_mask r) i"
proof -
  from assms obtain i where i: "scan_zero_bit 64 0 (active_clients_mask r) = Some i"
    and b: "b = push_bit i 1"
    and r': "r' = r\<lparr>active_clients_mask := active_clients_mask r OR push_bit i 1\<rparr>"
    by (auto simp: acquire_bit_def split: option.splits)
  from i have "i < 64" and nb: "\<not> bit (active_clients_mask r) i"
    by (simp_all add: scan_zero_bit_Some_iff)
  show "b AND active_clients_mask r = 0" unfolding b by (rule single_bit_disjoint [OF nb])
  show "active_clients_mask r' = active_clients_mask r OR b" using b r' by simp
  show "last_error r' = last_error r" using r' by simp
  show "\<exists>i<64. b = push_bit i 1 \<and> \<not> bit (active_clients_mask r) i"
    using \<open>i < 64\<close> nb b by blast
qed

text \<open>
  Claim C6.  Take any registry and run any sequence of \<^verbatim>\<open>acquire_bit\<close> and
  \<^verbatim>\<open>release_bit\<close> calls on it.  If the next \<^verbatim>\<open>acquire_bit\<close> succeeds (returns a
  non-zero value), the value returned shares no bit with the mask of active clients as it
  stood before the call, and the mask after the call is the old mask joined with the
  returned bit.
\<close>

theorem acquire_bit_disjoint_union:
  "acquire_bit (run_ops ops r0) = (b, r') \<Longrightarrow> b \<noteq> 0 \<Longrightarrow>
     b AND active_clients_mask (run_ops ops r0) = 0 \<and>
     active_clients_mask r' = active_clients_mask (run_ops ops r0) OR b"
  using acquire_bit_fresh(1,2) by blast

theorem acquire_bit_disjoint_union_witness:
  "acquire_bit (run_ops [Acquire_bit, Acquire_bit, Release_bit 1, Acquire_bit, Release_bit 2]
                  \<lparr>active_clients_mask = 0, last_error = None\<rparr>)
     = (2, \<lparr>active_clients_mask = 3, last_error = None\<rparr>) \<and> (2 :: 64 word) \<noteq> 0 \<and>
   2 AND active_clients_mask (run_ops [Acquire_bit, Acquire_bit, Release_bit 1, Acquire_bit, Release_bit 2]
                  \<lparr>active_clients_mask = 0, last_error = None\<rparr>) = 0 \<and>
   active_clients_mask \<lparr>active_clients_mask = 3, last_error = None\<rparr> =
     active_clients_mask (run_ops [Acquire_bit, Acquire_bit, Release_bit 1, Acquire_bit, Release_bit 2]
                  \<lparr>active_clients_mask = 0, last_error = None\<rparr>) OR 2"
proof -
  have run: "acquire_bit (run_ops [Acquire_bit, Acquire_bit, Release_bit 1, Acquire_bit, Release_bit 2]
                  \<lparr>active_clients_mask = 0, last_error = None\<rparr>)
     = (2, \<lparr>active_clients_mask = 3, last_error = None\<rparr>)"
    by (simp add: acquire_bit_def release_bit_def eval_nat_numeral)
  have nz: "(2 :: 64 word) \<noteq> 0" by simp
  show ?thesis
    using acquire_bit_disjoint_union [OF run nz] run nz by simp
qed

lemma and_not_disjoint:
  fixes m b :: "64 word"
  assumes "m AND b = 0"
  shows "m AND NOT b = m"
proof (rule bit_word_eqI)
  fix n
  from assms have "bit (m AND b) n = bit (0 :: 64 word) n" by simp
  then have "\<not> (bit m n \<and> bit b n)" by (simp add: bit_and_iff)
  then show "bit (m AND NOT b) n = bit m n" by (auto simp: bit_and_iff bit_not_iff dest: bit_imp_possible_bit)
qed

text \<open>
  Claim C7.  For every registry and every bit value \<open>b\<close>, releasing \<open>b\<close> a second time
  gives the registry that the first release gave; a release never touches the error
  field; and releasing a bit that is already clear leaves the registry as it is.
\<close>

theorem release_bit_idempotent:
  "release_bit b (release_bit b r) = release_bit b r \<and>
   last_error (release_bit b r) = last_error r \<and>
   (active_clients_mask r AND b = 0 \<longrightarrow> release_bit b r = r)"
  by (simp add: release_bit_def and_not_disjoint)

theorem release_bit_idempotent_witness:
  "active_clients_mask \<lparr>active_clients_mask = 5, last_error = None\<rparr> AND 2 = 0 \<and>
   release_bit 2 \<lparr>active_clients_mask = 5, last_error = None\<rparr>
     = \<lparr>active_clients_mask = 5, last_error = None\<rparr> \<and>
   release_bit 2 (release_bit 2 \<lparr>active_clients_mask = 5, last_error = None\<rparr>)
     = release_bit 2 \<lparr>active_clients_mask = 5, last_error = None\<rparr>"
  using release_bit_idempotent [of 2 "\<lparr>active_clients_mask = 5, last_error = None\<rparr>"]
  by simp

subsection \<open>The tests of \<^verbatim>\<open>buffer_node-test.cpp\<close>\<close>

text \<open>
  The three tests of the registry that are part of the sources, replayed on the model:
  two new clients get bits whose union is the mask; 64 new clients each get a non-zero
  bit outside the mask so far, and the next request returns 0 with the capacity error
  (\<^verbatim>\<open>E2BIG\<close>); removing a client's bit restores the mask, and removing it again changes
  nothing.
\<close>

lemma TestAddNewActiveClientsBitToMask_twoNewClients:
  "acquire_bit \<lparr>active_clients_mask = 0, last_error = e\<rparr> = (b1, r1) \<Longrightarrow>
   acquire_bit r1 = (b2, r2) \<Longrightarrow>
     active_clients_mask r1 = b1 \<and> active_clients_mask r2 = b1 OR b2"
  by (auto simp: acquire_bit_def eval_nat_numeral)

lemma TestAddNewActiveClientsBitToMask_32NewClients:
  "acquire_many 64 \<lparr>active_clients_mask = 0, last_error = e\<rparr>
     = (map (\<lambda>i. push_bit i 1) [0..<64], \<lparr>active_clients_mask = - 1, last_error = e\<rparr>) \<and>
   acquire_bit \<lparr>active_clients_mask = - 1, last_error = e\<rparr>
     = (0, \<lparr>active_clients_mask = - 1, last_error = Some OutOfCapacity\<rparr>)"
  using acquire_many_mask [of 0 64 e]
  by (simp add: mask_64_full acquire_bit_def scan_full del: upt_Suc)

lemma TestRemoveActiveClientsBitFromMask:
  assumes "acquire_bit \<lparr>active_clients_mask = 0, last_error = e\<rparr> = (b1, r1)"
    and "acquire_bit r1 = (b2, r2)"
  shows "active_clients_mask r2 \<noteq> active_clients_mask r1"
    and "active_clients_mask (release_bit b2 r2) = active_clients_mask r1"
    and "active_clients_mask (release_bit b2 (release_bit b2 r2)) = active_clients_mask r1"
  using assms by (auto simp: acquire_bit_def release_bit_def eval_nat_numeral)

section \<open>Properties of the ownership transitions\<close>

lemma or_absorb_subset:
  fixes m b :: "64 word"
  assumes "m AND NOT b = 0"
  shows "m OR b = b"
proof (rule bit_word_eqI)
  fix n
  assume "n < LENGTH(64)"
  from assms have "bit (m AND NOT b) n = bit (0 :: 64 word) n" by simp
  then have "\<not> (bit m n \<and> \<not> bit b n)" using \<open>n < LENGTH(64)\<close> by (simp add: bit_and_iff bit_not_iff)
  then show "bit (m OR b) n = bit b n" by (auto simp: bit_or_iff)
qed

text \<open>
  Claim C9.  For a producer handle with client bit \<open>b\<close>: as long as the ownership mask has
  a bit outside \<open>b\<close> set, \<^verbatim>\<open>Gain\<close> fails with \<^verbatim>\<open>NotReleased\<close>; once no bit outside \<open>b\<close> is
  set, \<^verbatim>\<open>Gain\<close> succeeds, and the ownership mask afterwards is exactly \<open>b\<close>.
\<close>

theorem Gain_NotReleased_until_others_clear:
  "role h = Producer \<Longrightarrow>
     (ownership_mask s AND NOT (client_bit h) \<noteq> 0 \<longrightarrow> Gain h s = Inl NotReleased) \<and>
     (ownership_mask s AND NOT (client_bit h) = 0 \<longrightarrow>
        Gain h s = Inr (pending_fence s,
                        s\<lparr>ownership_mask := client_bit h,
                          generation := Suc (generation s),
                          pending_fence := None\<rparr>))"
  by (simp add: Gain_def or_absorb_subset)

theorem Gain_NotReleased_until_others_clear_witness:
  "role \<lparr>client_bit = 1, role = Producer\<rparr> = Producer \<and>
   ownership_mask \<lparr>ownership_mask = 6, generation = 7, pending_fence = Some 3\<rparr>
      AND NOT (client_bit \<lparr>client_bit = 1, role = Producer\<rparr>) \<noteq> 0 \<and>
   Gain \<lparr>client_bit = 1, role = Producer\<rparr>
        \<lparr>ownership_mask = 6, generation = 7, pending_fence = Some 3\<rparr> = Inl NotReleased \<and>
   ownership_mask \<lparr>ownership_mask = 0, generation = 7, pending_fence = Some 3\<rparr>
      AND NOT (client_bit \<lparr>client_bit = 1, role = Producer\<rparr>) = 0 \<and>
   Gain \<lparr>client_bit = 1, role = Producer\<rparr>
        \<lparr>ownership_mask = 0, generation = 7, pending_fence = Some 3\<rparr>
     = Inr (Some 3, \<lparr>ownership_mask = 1, generation = 8, pending_fence = None\<rparr>)"
proof -
  have p: "role \<lparr>client_bit = 1, role = Producer\<rparr> = Producer" by simp
  have busy: "ownership_mask \<lparr>ownership_mask = 6, generation = 7, pending_fence = Some 3\<rparr>
      AND NOT (client_bit \<lparr>client_bit = 1, role = Producer\<rparr>) \<noteq> 0" by simp
  have free: "ownership_mask \<lparr>ownership_mask = 0, generation = 7, pending_fence = Some 3\<rparr>
      AND NOT (client_bit \<lparr>client_bit = 1, role = Producer\<rparr>) = 0" by simp
  from Gain_NotReleased_until_others_clear [OF p, of "\<lparr>ownership_mask = 6, generation = 7, pending_fence = Some 3\<rparr>"] busy
  have a: "Gain \<lparr>client_bit = 1, role = Producer\<rparr>
        \<lparr>ownership_mask = 6, generation = 7, pending_fence = Some 3\<rparr> = Inl NotReleased" by blast
  from Gain_NotReleased_until_others_clear [OF p, of "\<lparr>ownership_mask = 0, generation = 7, pending_fence = Some 3\<rparr>"] free
  have b: "Gain \<lparr>client_bit = 1, role = Producer\<rparr>
        \<lparr>ownership_mask = 0, generation = 7, pending_fence = Some 3\<rparr>
     = Inr (Some 3, \<lparr>ownership_mask = 1, generation = 8, pending_fence = None\<rparr>)" by simp
  show ?thesis using p busy free a b by blast
qed

section \<open>Properties of the queue adapter\<close>

subsection \<open>\<^verbatim>\<open>setMaxDequeuedBufferCount\<close>\<close>

lemma int_of_size_t_small: "n < 2 ^ 31 \<Longrightarrow> int_of_size_t n = int n"
proof -
  assume a: "n < 2 ^ 31"
  then have "int n < 2 ^ 31" by (metis of_nat_less_iff of_nat_numeral of_nat_power)
  moreover have "(0::int) \<le> int n" by simp
  ultimately have "int n mod 2 ^ 32 = int n" by (simp add: mod_pos_pos_trivial)
  with \<open>int n < 2 ^ 31\<close> show ?thesis by (simp add: int_of_size_t_def)
qed

lemma size_t_of_int_nonneg: "0 \<le> i \<Longrightarrow> i < 2 ^ 64 \<Longrightarrow> size_t_of_int i = nat i"
  by (simp add: size_t_of_int_def mod_pos_pos_trivial)

lemma size_t_sub_le: "b \<le> a \<Longrightarrow> a < 2 ^ 64 \<Longrightarrow> size_t_sub a b = a - b"
proof -
  assume le: "b \<le> a" and lt: "a < 2 ^ 64"
  have "int a < 2 ^ 64" using lt by (metis of_nat_less_iff of_nat_numeral of_nat_power)
  then have "int a - int b < 2 ^ 64" by linarith
  moreover have "0 \<le> int a - int b" using le by simp
  ultimately have "(int a - int b) mod 2 ^ 64 = int a - int b" by (simp add: mod_pos_pos_trivial)
  then show ?thesis using le by (simp add: size_t_sub_def nat_diff_distrib')
qed

lemma upper_bound_sane:
  assumes "0 \<le> kDefaultUndequeuedBuffers c"
    and "kDefaultUndequeuedBuffers c \<le> int (kMaxQueueCapacity c)"
    and "kMaxQueueCapacity c < 2 ^ 31"
  shows "int_of_size_t (size_t_sub (kMaxQueueCapacity c)
                          (size_t_of_int (kDefaultUndequeuedBuffers c)))
         = int (kMaxQueueCapacity c) - kDefaultUndequeuedBuffers c"
proof -
  let ?K = "kMaxQueueCapacity c" and ?d = "kDefaultUndequeuedBuffers c"
  have K64: "?K < 2 ^ 64" using assms(3) by (rule less_trans) simp
  have "int ?K < 2 ^ 64" using K64 by (metis of_nat_less_iff of_nat_numeral of_nat_power)
  with assms have d64: "?d < 2 ^ 64" by linarith
  have d: "size_t_of_int ?d = nat ?d" using assms(1) d64 by (rule size_t_of_int_nonneg)
  have le: "nat ?d \<le> ?K" using assms(1,2) by linarith
  have sub: "size_t_sub ?K (nat ?d) = ?K - nat ?d" using le K64 by (rule size_t_sub_le)
  have "?K - nat ?d < 2 ^ 31" using assms(3) by (rule le_less_trans [rotated]) simp
  then have "int_of_size_t (?K - nat ?d) = int (?K - nat ?d)" by (rule int_of_size_t_small)
  also have "\<dots> = int ?K - ?d" using le assms(1) by simp
  finally show ?thesis by (simp add: d sub)
qed

text \<open>
  Claim C10.  Let the constants be such that the reserved count lies between 0 and the
  queue capacity and the capacity fits an \<^verbatim>\<open>int\<close>.  Then
  \<^verbatim>\<open>setMaxDequeuedBufferCount(n)\<close> returns \<^verbatim>\<open>BAD_VALUE\<close> and leaves the adapter, the stored
  maximum included, as it was whenever \<open>n \<le> 0\<close>, or \<open>n\<close> exceeds the capacity minus the
  reserved count, or \<open>n\<close> is below the number of slots that are Dequeued; in every other
  case it returns \<^verbatim>\<open>NO_ERROR\<close> and the stored maximum is \<open>n\<close>, nothing else having
  changed.  The function does not look at the connection, so this holds for a connected
  adapter as for any other.
\<close>

theorem setMaxDequeuedBufferCount_checks:
  assumes "0 \<le> kDefaultUndequeuedBuffers c"
    and "kDefaultUndequeuedBuffers c \<le> int (kMaxQueueCapacity c)"
    and "kMaxQueueCapacity c < 2 ^ 31"
  shows "(n \<le> 0 \<or> n > int (kMaxQueueCapacity c) - kDefaultUndequeuedBuffers c
            \<or> n < dequeued_count c p
          \<longrightarrow> setMaxDequeuedBufferCount c p n = (BAD_VALUE, p)) \<and>
         (\<not> (n \<le> 0 \<or> n > int (kMaxQueueCapacity c) - kDefaultUndequeuedBuffers c
               \<or> n < dequeued_count c p)
          \<longrightarrow> setMaxDequeuedBufferCount c p n
                = (NO_ERROR, p\<lparr>max_dequeued_buffer_count := n\<rparr>))"
  by (auto simp: setMaxDequeuedBufferCount_def upper_bound_sane [OF assms])

theorem setMaxDequeuedBufferCount_checks_witness:
  "0 \<le> kDefaultUndequeuedBuffers example_consts \<and>
   kDefaultUndequeuedBuffers example_consts \<le> int (kMaxQueueCapacity example_consts) \<and>
   kMaxQueueCapacity example_consts < 2 ^ 31 \<and>
   1 < dequeued_count example_consts two_dequeued \<and>
   setMaxDequeuedBufferCount example_consts two_dequeued 1 = (BAD_VALUE, two_dequeued) \<and>
   setMaxDequeuedBufferCount example_consts two_dequeued 0 = (BAD_VALUE, two_dequeued) \<and>
   setMaxDequeuedBufferCount example_consts two_dequeued 64 = (BAD_VALUE, two_dequeued) \<and>
   \<not> (5 \<le> (0::int) \<or> 5 > int (kMaxQueueCapacity example_consts)
                             - kDefaultUndequeuedBuffers example_consts
       \<or> 5 < dequeued_count example_consts two_dequeued) \<and>
   setMaxDequeuedBufferCount example_consts two_dequeued 5
     = (NO_ERROR, two_dequeued\<lparr>max_dequeued_buffer_count := 5\<rparr>)"
proof -
  have c1: "0 \<le> kDefaultUndequeuedBuffers example_consts"
    and c2: "kDefaultUndequeuedBuffers example_consts \<le> int (kMaxQueueCapacity example_consts)"
    and c3: "kMaxQueueCapacity example_consts < 2 ^ 31"
    by (simp_all add: example_consts_def)
  have cnt: "dequeued_count example_consts two_dequeued = 2" by code_simp
  have k: "int (kMaxQueueCapacity example_consts) - kDefaultUndequeuedBuffers example_consts = 63"
    by (simp add: example_consts_def)
  note t = setMaxDequeuedBufferCount_checks [OF c1 c2 c3, of _ two_dequeued]
  have a1: "setMaxDequeuedBufferCount example_consts two_dequeued 1 = (BAD_VALUE, two_dequeued)"
    using t [of 1] cnt by simp
  have a0: "setMaxDequeuedBufferCount example_consts two_dequeued 0 = (BAD_VALUE, two_dequeued)"
    using t [of 0] by simp
  have a64: "setMaxDequeuedBufferCount example_consts two_dequeued 64 = (BAD_VALUE, two_dequeued)"
    using t [of 64] k by simp
  have a5: "setMaxDequeuedBufferCount example_consts two_dequeued 5
              = (NO_ERROR, two_dequeued\<lparr>max_dequeued_buffer_count := 5\<rparr>)"
    using t [of 5] cnt k by simp
  show ?thesis using c1 c2 c3 cnt k a0 a1 a64 a5 by simp
qed

subsection \<open>\<^verbatim>\<open>queueBuffer\<close>\<close>

lemma intersect_differs_iff:
  "intersect crop (Rect_of_size w h) \<noteq> crop \<longleftrightarrow> extends_outside crop w h"
  by (cases crop) (auto simp: intersect_def Rect_of_size_def extends_outside_def max_def min_def)

text \<open>
  For contrast with the failure below: when every check passes and the producer holds
  the buffer, \<^verbatim>\<open>queueBuffer\<close> posts it (the producer's bit leaves the ownership mask and
  the metadata of the call is stored with the buffer) and the slot becomes Queued.
\<close>

lemma queueBuffer_posts:
  assumes "connected_api p \<noteq> kNoConnectedApi c"
    and "0 \<le> slot" and "slot < max_buffer_count p"
    and "isDequeued (mBufferState (buffers p (nat slot)))"
    and "mRequestBufferCalled (buffers p (nat slot))"
    and "mGraphicBuffer (buffers p (nat slot)) \<noteq> None"
    and "mBufferProducer (buffers p (nat slot)) = Some b"
    and "\<not> extends_outside (in_crop input) (bp_width b) (bp_height b)"
    and "in_scaling_mode input = NATIVE_WINDOW_SCALING_MODE_FREEZE"
    and "in_fence input = Some NO_FENCE"
    and "role (bp_handle b) = Producer"
    and "ownership_mask (hub_state p (bp_id b)) = client_bit (bp_handle b)"
  shows "case queueBuffer c p slot input True of
           (status, output, p') \<Rightarrow>
             status = NO_ERROR \<and>
             isQueued (mBufferState (buffers p' (nat slot))) \<and>
             ownership_mask (hub_state p' (bp_id b)) = 0 \<and>
             (\<exists>m. hub_metadata p' (bp_id b) = Some m \<and> timestamp m = in_timestamp input \<and>
                  crop_left m = left (in_crop input) \<and> crop_right m = right (in_crop input))"
  using assms intersect_differs_iff [of "in_crop input" "bp_width b" "bp_height b"]
  by (simp add: queueBuffer_def Let_def PostAsync_def Post_def set_slot_def
        isDequeued_def isQueued_def)

text \<open>
  Claim C3.  On a connected adapter, take a slot within range that is Dequeued, has been
  requested (the flag is set and the local buffer reference is there) and is bound to a
  buffer.  If the crop of the input extends outside the bounds of that buffer,
  \<^verbatim>\<open>queueBuffer\<close> returns \<^verbatim>\<open>BAD_VALUE\<close>, writes no output, and the state after the call is
  the state before it: the ownership state and the metadata of every buffer are
  untouched (no Post), and the slot is still Dequeued.  This is so whatever the output
  pointer, the scaling mode and the fence of the call are.
\<close>

theorem queueBuffer_crop_out_of_bounds:
  assumes "connected_api p \<noteq> kNoConnectedApi c"
    and "0 \<le> slot" and "slot < max_buffer_count p"
    and "isDequeued (mBufferState (buffers p (nat slot)))"
    and "mRequestBufferCalled (buffers p (nat slot))"
    and "mGraphicBuffer (buffers p (nat slot)) \<noteq> None"
    and "mBufferProducer (buffers p (nat slot)) = Some b"
    and "extends_outside (in_crop input) (bp_width b) (bp_height b)"
  shows "queueBuffer c p slot input has_output = (BAD_VALUE, None, p)"
  using assms
  by (simp add: queueBuffer_def intersect_differs_iff Let_def split: option.splits)

theorem queueBuffer_crop_out_of_bounds_witness:
  "connected_api after_request \<noteq> kNoConnectedApi example_consts \<and>
   (0::int) \<le> 0 \<and> 0 < max_buffer_count after_request \<and>
   isDequeued (mBufferState (buffers after_request (nat 0))) \<and>
   mRequestBufferCalled (buffers after_request (nat 0)) \<and>
   mGraphicBuffer (buffers after_request (nat 0)) \<noteq> None \<and>
   mBufferProducer (buffers after_request (nat 0)) = Some example_buffer \<and>
   extends_outside \<lparr>left = 0, top_edge = 0, right = 51, bottom = 50\<rparr>
      (bp_width example_buffer) (bp_height example_buffer) \<and>
   queueBuffer example_consts after_request 0
      (example_input \<lparr>left = 0, top_edge = 0, right = 51, bottom = 50\<rparr>) True
     = (BAD_VALUE, None, after_request)"
proof -
  have h1: "connected_api after_request \<noteq> kNoConnectedApi example_consts" by code_simp
  have h2: "(0::int) \<le> 0" by simp
  have h3: "0 < max_buffer_count after_request" by code_simp
  have h4: "isDequeued (mBufferState (buffers after_request (nat 0)))" by code_simp
  have h5: "mRequestBufferCalled (buffers after_request (nat 0))" by code_simp
  have h6: "mGraphicBuffer (buffers after_request (nat 0)) \<noteq> None" by code_simp
  have h7: "mBufferProducer (buffers after_request (nat 0)) = Some example_buffer" by code_simp
  have h8: "extends_outside (in_crop (example_input \<lparr>left = 0, top_edge = 0, right = 51, bottom = 50\<rparr>))
      (bp_width example_buffer) (bp_height example_buffer)" by code_simp
  have h8': "extends_outside \<lparr>left = 0, top_edge = 0, right = 51, bottom = 50\<rparr>
      (bp_width example_buffer) (bp_height example_buffer)" by code_simp
  from queueBuffer_crop_out_of_bounds [OF h1 h2 h3 h4 h5 h6 h7 h8, of True]
  show ?thesis using h1 h2 h3 h4 h5 h6 h7 h8' by simp
qed

subsection \<open>\<^verbatim>\<open>cancelBuffer\<close>\<close>

text \<open>
  Claim C4, as stated, fails.  In the state reached by a dequeue and a request, slot 0
  is Dequeued; \<^verbatim>\<open>cancelBuffer\<close> on it succeeds, and afterwards the slot's
  request-buffer-called flag is still set and its local buffer reference is still there.
\<close>

theorem cancelBuffer_keeps_request_state:
  "isDequeued (mBufferState (buffers after_request 0)) \<and>
   fst (cancelBuffer example_consts after_request 0 (Some NO_FENCE)) = NO_ERROR \<and>
   mRequestBufferCalled
     (buffers (snd (cancelBuffer example_consts after_request 0 (Some NO_FENCE))) 0) \<and>
   mGraphicBuffer
     (buffers (snd (cancelBuffer example_consts after_request 0 (Some NO_FENCE))) 0) = Some 0"
  by code_simp

text \<open>
  Claim C4, amended.  On a connected adapter, \<^verbatim>\<open>cancelBuffer\<close> on a slot within range
  that is Dequeued, with a fence that is not null, succeeds.  The slot is put at the end
  of the ready list; no buffer is posted (the ownership state and the metadata of every
  buffer are as before); the slot is Free and keeps the fence; and the slot's request
  state is left as it was: the request-buffer-called flag, the local buffer reference
  and the bound buffer are unchanged.
\<close>

theorem cancelBuffer_returns_unposted:
  assumes "connected_api p \<noteq> kNoConnectedApi c"
    and "0 \<le> slot" and "slot < max_buffer_count p"
    and "isDequeued (mBufferState (buffers p (nat slot)))"
  shows "case cancelBuffer c p slot (Some f) of
           (status, p') \<Rightarrow>
             status = NO_ERROR \<and>
             available (the_queue p') = available (the_queue p) @ [nat slot] \<and>
             hub_state p' = hub_state p \<and> hub_metadata p' = hub_metadata p \<and>
             isFree (mBufferState (buffers p' (nat slot))) \<and>
             mFence (buffers p' (nat slot)) = f \<and>
             mRequestBufferCalled (buffers p' (nat slot))
               = mRequestBufferCalled (buffers p (nat slot)) \<and>
             mGraphicBuffer (buffers p' (nat slot)) = mGraphicBuffer (buffers p (nat slot)) \<and>
             mBufferProducer (buffers p' (nat slot)) = mBufferProducer (buffers p (nat slot))"
  using assms
  by (simp add: cancelBuffer_def Q_Enqueue_def set_slot_def isDequeued_def isFree_def Let_def)

theorem cancelBuffer_returns_unposted_witness:
  "connected_api after_request \<noteq> kNoConnectedApi example_consts \<and>
   (0::int) \<le> 0 \<and> 0 < max_buffer_count after_request \<and>
   isDequeued (mBufferState (buffers after_request (nat 0))) \<and>
   (case cancelBuffer example_consts after_request 0 (Some (Fence 3)) of
      (status, p') \<Rightarrow>
        status = NO_ERROR \<and>
        available (the_queue p') = available (the_queue after_request) @ [nat 0] \<and>
        hub_state p' = hub_state after_request \<and>
        hub_metadata p' = hub_metadata after_request \<and>
        isFree (mBufferState (buffers p' (nat 0))) \<and>
        mFence (buffers p' (nat 0)) = Fence 3 \<and>
        mRequestBufferCalled (buffers p' (nat 0))
          = mRequestBufferCalled (buffers after_request (nat 0)) \<and>
        mGraphicBuffer (buffers p' (nat 0)) = mGraphicBuffer (buffers after_request (nat 0)) \<and>
        mBufferProducer (buffers p' (nat 0)) = mBufferProducer (buffers after_request (nat 0)))"
proof -
  have h1: "connected_api after_request \<noteq> kNoConnectedApi example_consts" by code_simp
  have h2: "(0::int) \<le> 0" by simp
  have h3: "0 < max_buffer_count after_request" by code_simp
  have h4: "isDequeued (mBufferState (buffers after_request (nat 0)))" by code_simp
  note r = cancelBuffer_returns_unposted [OF h1 h2 h3 h4, of "Fence 3"]
  show ?thesis using h1 h2 h3 h4 r by blast
qed

subsection \<open>\<^verbatim>\<open>detachBuffer\<close>\<close>

text \<open>
  Claim C5.  On a connected adapter and for a slot within range that is Dequeued:
  if the slot has not had request called (its request-buffer-called flag, which
  \<^verbatim>\<open>requestBuffer\<close> sets, is not set), \<^verbatim>\<open>DetachBufferLocked\<close> returns \<^verbatim>\<open>BAD_VALUE\<close> and
  changes nothing.  If it has, and the slot holds a bound buffer that can be detached
  (the queue holds a buffer in that slot; the buffer has its graphic buffer; the
  producer has it gained, as \<^verbatim>\<open>Detach\<close> requires, and not yet detached), then after the
  call the slot is Free and unbound: no buffer is bound to it in the adapter or in the
  queue, the request-buffer-called flag is cleared and the local buffer reference is
  gone; the buffer itself is detached.  The status of that call is \<^verbatim>\<open>BAD_VALUE\<close> if the
  handle made from the channel of the detach is not valid, and otherwise the status
  with which the graphic buffer takes the handle.  So when the buffer is valid
  throughout (the channel is valid and the graphic buffer takes the handle with
  \<^verbatim>\<open>NO_ERROR\<close>), the call returns \<^verbatim>\<open>NO_ERROR\<close>, and the graphic buffer holds the handle made
  from the channel.
\<close>

theorem DetachBufferLocked_needs_request:
  "(connected_api p \<noteq> kNoConnectedApi c \<and> slot < size_t_of_int (max_buffer_count p)
      \<and> isDequeued (mBufferState (buffers p slot))
      \<and> \<not> mRequestBufferCalled (buffers p slot)
    \<longrightarrow> DetachBufferLocked c p slot = (BAD_VALUE, p)) \<and>
   (connected_api p \<noteq> kNoConnectedApi c \<and> slot < size_t_of_int (max_buffer_count p)
      \<and> isDequeued (mBufferState (buffers p slot))
      \<and> mRequestBufferCalled (buffers p slot)
      \<and> Q_GetBuffer (the_queue p) slot = Some b
      \<and> bp_buffer b = Some (IonBuffer (Some gb))
      \<and> ownership_mask (hub_state p (bp_id b)) = client_bit (bp_handle b)
      \<and> client_bit (bp_handle b) \<noteq> 0 \<and> \<not> hub_detached p (bp_id b)
    \<longrightarrow> (case DetachBufferLocked c p slot of
           (status, p') \<Rightarrow>
             status = (if channel_valid (hub_channel p (bp_id b))
                       then set_handle_status (graphic_buffers p gb) else BAD_VALUE) \<and>
             mBufferProducer (buffers p' slot) = None \<and>
             Q_GetBuffer (the_queue p') slot = None \<and>
             isFree (mBufferState (buffers p' slot)) \<and>
             \<not> mRequestBufferCalled (buffers p' slot) \<and>
             mGraphicBuffer (buffers p' slot) = None \<and>
             hub_detached p' (bp_id b) \<and>
             (channel_valid (hub_channel p (bp_id b))
                \<and> set_handle_status (graphic_buffers p gb) = NO_ERROR
              \<longrightarrow> status = NO_ERROR \<and>
                  mDetachedBufferHandle (graphic_buffers p' gb)
                    = Some (DetachedBufferHandle_Create (hub_channel p (bp_id b))))))"
  by (auto simp: DetachBufferLocked_def RemoveBuffer_def Q_RemoveBuffer_def Q_GetBuffer_def
        Detach_def set_slot_def isDequeued_def isFree_def isValid_def
        DetachedBufferHandle_Create_def setDetachedBufferHandle_def Let_def)

theorem DetachBufferLocked_needs_request_witness:
  "connected_api after_dequeue \<noteq> kNoConnectedApi example_consts \<and>
   0 < size_t_of_int (max_buffer_count after_dequeue) \<and>
   isDequeued (mBufferState (buffers after_dequeue 0)) \<and>
   \<not> mRequestBufferCalled (buffers after_dequeue 0) \<and>
   DetachBufferLocked example_consts after_dequeue 0 = (BAD_VALUE, after_dequeue) \<and>
   connected_api after_request \<noteq> kNoConnectedApi example_consts \<and>
   0 < size_t_of_int (max_buffer_count after_request) \<and>
   isDequeued (mBufferState (buffers after_request 0)) \<and>
   mRequestBufferCalled (buffers after_request 0) \<and>
   Q_GetBuffer (the_queue after_request) 0 = Some example_buffer \<and>
   bp_buffer example_buffer = Some (IonBuffer (Some 0)) \<and>
   ownership_mask (hub_state after_request (bp_id example_buffer))
     = client_bit (bp_handle example_buffer) \<and>
   client_bit (bp_handle example_buffer) \<noteq> 0 \<and>
   \<not> hub_detached after_request (bp_id example_buffer) \<and>
   channel_valid (hub_channel after_request (bp_id example_buffer)) \<and>
   set_handle_status (graphic_buffers after_request 0) = NO_ERROR \<and>
   (case DetachBufferLocked example_consts after_request 0 of
      (status, p') \<Rightarrow>
        status = NO_ERROR \<and>
        mBufferProducer (buffers p' 0) = None \<and>
        Q_GetBuffer (the_queue p') 0 = None \<and>
        isFree (mBufferState (buffers p' 0)) \<and>
        \<not> mRequestBufferCalled (buffers p' 0) \<and>
        mGraphicBuffer (buffers p' 0) = None \<and>
        hub_detached p' (bp_id example_buffer) \<and>
        mDetachedBufferHandle (graphic_buffers p' 0)
          = Some (DetachedBufferHandle_Create
                    (hub_channel after_request (bp_id example_buffer))))"
proof -
  have a: "connected_api after_dequeue \<noteq> kNoConnectedApi example_consts \<and>
     0 < size_t_of_int (max_buffer_count after_dequeue) \<and>
     isDequeued (mBufferState (buffers after_dequeue 0)) \<and>
     \<not> mRequestBufferCalled (buffers after_dequeue 0)" by code_simp
  have b: "connected_api after_request \<noteq> kNoConnectedApi example_consts \<and>
     0 < size_t_of_int (max_buffer_count after_request) \<and>
     isDequeued (mBufferState (buffers after_request 0)) \<and>
     mRequestBufferCalled (buffers after_request 0) \<and>
     Q_GetBuffer (the_queue after_request) 0 = Some example_buffer \<and>
     bp_buffer example_buffer = Some (IonBuffer (Some 0)) \<and>
     ownership_mask (hub_state after_request (bp_id example_buffer))
       = client_bit (bp_handle example_buffer) \<and>
     client_bit (bp_handle example_buffer) \<noteq> 0 \<and>
     \<not> hub_detached after_request (bp_id example_buffer)" by code_simp
  have v: "channel_valid (hub_channel after_request (bp_id example_buffer)) \<and>
     set_handle_status (graphic_buffers after_request 0) = NO_ERROR" by code_simp
  from DetachBufferLocked_needs_request [of after_dequeue example_consts 0] a
  have ra: "DetachBufferLocked example_consts after_dequeue 0 = (BAD_VALUE, after_dequeue)"
    by blast
  from DetachBufferLocked_needs_request
      [of after_request example_consts 0 example_buffer 0, THEN conjunct2, THEN mp, OF b] v
  have rb: "case DetachBufferLocked example_consts after_request 0 of
      (status, p') \<Rightarrow>
        status = NO_ERROR \<and>
        mBufferProducer (buffers p' 0) = None \<and>
        Q_GetBuffer (the_queue p') 0 = None \<and>
        isFree (mBufferState (buffers p' 0)) \<and>
        \<not> mRequestBufferCalled (buffers p' 0) \<and>
        mGraphicBuffer (buffers p' 0) = None \<and>
        hub_detached p' (bp_id example_buffer) \<and>
        mDetachedBufferHandle (graphic_buffers p' 0)
          = Some (DetachedBufferHandle_Create
                    (hub_channel after_request (bp_id example_buffer)))"
    by (auto split: prod.splits)
  show ?thesis using a b v ra rb by blast
qed

subsection \<open>\<^verbatim>\<open>dequeueBuffer\<close>: the loop and its body\<close>

text \<open>
  The loop is reasoned about through its body.  An induction rule that follows the loop
  from one iteration to the next, and one equation for each way an iteration can end,
  take the place of the defining equation.
\<close>

lemma dequeue_loop_induct [case_names step]:
  assumes "\<And>retry slot p.
     (retry < kMaxQueueCapacity c \<Longrightarrow> b_exit (loop_body c w h f u slot p) = Body_end \<Longrightarrow>
        P (Suc retry) (b_slot (loop_body c w h f u slot p))
                      (b_state (loop_body c w h f u slot p)))
     \<Longrightarrow> P retry slot p"
  shows "P retry slot p"
proof (induction "kMaxQueueCapacity c - retry" arbitrary: retry slot p)
  case (0 retry slot p)
  then have "\<not> retry < kMaxQueueCapacity c" by simp
  then show ?case using assms [of retry slot p] by blast
next
  case (Suc n retry slot p)
  then have "P (Suc retry) (b_slot (loop_body c w h f u slot p))
                           (b_state (loop_body c w h f u slot p))"
    by simp
  then show ?case using assms [of retry slot p] by blast
qed

lemma dequeue_loop_exhausted:
  "\<not> retry < kMaxQueueCapacity c \<Longrightarrow>
     dequeue_loop c w h f u retry slot p =
       \<lparr>lr_exit = Exhausted, lr_slot = slot, lr_iterations = 0,
        lr_reallocated = [], lr_state = p\<rparr>"
  by (subst dequeue_loop.simps) simp

lemma dequeue_loop_return:
  "retry < kMaxQueueCapacity c \<Longrightarrow> b_exit (loop_body c w h f u slot p) = Body_return ret \<Longrightarrow>
     dequeue_loop c w h f u retry slot p =
       \<lparr>lr_exit = Return ret, lr_slot = b_slot (loop_body c w h f u slot p), lr_iterations = 1,
        lr_reallocated = (if b_mismatch (loop_body c w h f u slot p)
                          then [b_slot (loop_body c w h f u slot p)] else []),
        lr_state = b_state (loop_body c w h f u slot p)\<rparr>"
  by (subst dequeue_loop.simps) (simp add: Let_def)

lemma dequeue_loop_break:
  "retry < kMaxQueueCapacity c \<Longrightarrow> b_exit (loop_body c w h f u slot p) = Body_break \<Longrightarrow>
     dequeue_loop c w h f u retry slot p =
       \<lparr>lr_exit = Break, lr_slot = b_slot (loop_body c w h f u slot p), lr_iterations = 1,
        lr_reallocated = (if b_mismatch (loop_body c w h f u slot p)
                          then [b_slot (loop_body c w h f u slot p)] else []),
        lr_state = b_state (loop_body c w h f u slot p)\<rparr>"
  by (subst dequeue_loop.simps) (simp add: Let_def)

lemma dequeue_loop_continue:
  "retry < kMaxQueueCapacity c \<Longrightarrow> b_exit (loop_body c w h f u slot p) = Body_end \<Longrightarrow>
     dequeue_loop c w h f u retry slot p =
       (dequeue_loop c w h f u (Suc retry) (b_slot (loop_body c w h f u slot p))
                                          (b_state (loop_body c w h f u slot p)))
         \<lparr>lr_iterations :=
            Suc (lr_iterations
                   (dequeue_loop c w h f u (Suc retry) (b_slot (loop_body c w h f u slot p))
                                                      (b_state (loop_body c w h f u slot p)))),
          lr_reallocated :=
            (if b_mismatch (loop_body c w h f u slot p)
             then [b_slot (loop_body c w h f u slot p)] else [])
            @ lr_reallocated
                (dequeue_loop c w h f u (Suc retry) (b_slot (loop_body c w h f u slot p))
                                                   (b_state (loop_body c w h f u slot p)))\<rparr>"
  by (subst dequeue_loop.simps) (simp add: Let_def)

lemmas dequeue_loop_cases =
  dequeue_loop_exhausted dequeue_loop_return dequeue_loop_break dequeue_loop_continue

lemma dequeue_loop_iterations:
  "lr_iterations (dequeue_loop c w h f u retry slot p) \<le> kMaxQueueCapacity c - retry"
proof (induction retry slot p rule: dequeue_loop_induct [where c = c and w = w and h = h and f = f and u = u])
  case (step retry slot p)
  show ?case
  proof (cases "retry < kMaxQueueCapacity c")
    case False
    then show ?thesis by (simp add: dequeue_loop_exhausted)
  next
    case True
    show ?thesis
    proof (cases "b_exit (loop_body c w h f u slot p)")
      case (Body_return ret)
      with True show ?thesis by (simp add: dequeue_loop_return)
    next
      case Body_break
      with True show ?thesis by (simp add: dequeue_loop_break)
    next
      case Body_end
      with True step [OF True Body_end] show ?thesis by (simp add: dequeue_loop_continue)
    qed
  qed
qed

lemma find_free_slot:
  "find (\<lambda>s. q_slots q s = None) [0..<K] = Some t \<longleftrightarrow>
     t < K \<and> q_slots q t = None \<and> (\<forall>i<t. q_slots q i \<noteq> None)"
  by (auto simp: find_Some_iff)

lemma find_free_slot_None:
  "find (\<lambda>s. q_slots q s = None) [0..<K] = None \<longleftrightarrow> (\<forall>i<K. q_slots q i \<noteq> None)"
  by (auto simp: find_None_iff)

lemma AllocateBuffer_cases:
  "(AllocateBuffer c p w h l f u = (NO_MEMORY, p)) \<or>
   (\<exists>t. t < kMaxQueueCapacity c \<and> q_slots (the_queue p) t = None \<and>
        (\<forall>i<t. q_slots (the_queue p) i \<noteq> None) \<and> alloc_budget (the_queue p) \<noteq> 0 \<and>
        AllocateBuffer c p w h l f u =
          (NO_ERROR,
           p\<lparr>the_queue := (the_queue p)
                 \<lparr>q_slots := (q_slots (the_queue p))(t \<mapsto> new_buffer (the_queue p) w h f),
                  available := available (the_queue p) @ [t],
                  next_buffer_id := Suc (next_buffer_id (the_queue p)),
                  alloc_budget := alloc_budget (the_queue p) - 1\<rparr>,
             buffers := (buffers p)
                 (t := (buffers p t)\<lparr>mBufferProducer := Some (new_buffer (the_queue p) w h f)\<rparr>)\<rparr>))"
proof (cases "find (\<lambda>s. q_slots (the_queue p) s = None) [0..<kMaxQueueCapacity c]")
  case None
  then show ?thesis by (simp add: AllocateBuffer_def Q_AllocateBuffer_def)
next
  case (Some t)
  show ?thesis
  proof (cases "alloc_budget (the_queue p) = 0")
    case True
    with Some show ?thesis by (simp add: AllocateBuffer_def Q_AllocateBuffer_def)
  next
    case False
    from Some have t: "t < kMaxQueueCapacity c" "q_slots (the_queue p) t = None"
      "\<forall>i<t. q_slots (the_queue p) i \<noteq> None"
      by (simp_all add: find_free_slot)
    have "AllocateBuffer c p w h l f u =
          (NO_ERROR,
           p\<lparr>the_queue := (the_queue p)
                 \<lparr>q_slots := (q_slots (the_queue p))(t \<mapsto> new_buffer (the_queue p) w h f),
                  available := available (the_queue p) @ [t],
                  next_buffer_id := Suc (next_buffer_id (the_queue p)),
                  alloc_budget := alloc_budget (the_queue p) - 1\<rparr>,
             buffers := (buffers p)
                 (t := (buffers p t)\<lparr>mBufferProducer := Some (new_buffer (the_queue p) w h f)\<rparr>)\<rparr>)"
      using Some False
      by (simp add: AllocateBuffer_def Q_AllocateBuffer_def Q_GetBuffer_def set_slot_def)
    with t False show ?thesis by blast
  qed
qed

lemma RemoveBuffer_bound:
  "q_slots (the_queue p) s = Some b \<Longrightarrow>
     RemoveBuffer p s =
       (NO_ERROR,
        p\<lparr>the_queue := (the_queue p)\<lparr>q_slots := (q_slots (the_queue p))(s := None)\<rparr>,
          buffers := (buffers p)
            (s := (buffers p s)
               \<lparr>mBufferProducer := None,
                mBufferState := detachProducer (mBufferState (buffers p s)),
                mFence := NO_FENCE, mGraphicBuffer := None, mRequestBufferCalled := False\<rparr>)\<rparr>)"
  by (simp add: RemoveBuffer_def Q_RemoveBuffer_def set_slot_def)

lemma RemoveBuffer_unbound:
  "q_slots (the_queue p) s = None \<Longrightarrow> RemoveBuffer p s = (INVALID_OPERATION, p)"
  by (simp add: RemoveBuffer_def Q_RemoveBuffer_def)

lemma loop_body_empty:
  "available (the_queue p) = [] \<Longrightarrow>
     loop_body c w h f u slot p =
       \<lparr>b_exit = Body_return NO_MEMORY, b_slot = slot, b_mismatch = False, b_state = p\<rparr>"
  by (simp add: loop_body_def Q_Dequeue_def)

lemma loop_body_null:
  "available (the_queue p) = s # rest \<Longrightarrow> q_slots (the_queue p) s = None \<Longrightarrow>
     loop_body c w h f u slot p =
       \<lparr>b_exit = Body_return NO_MEMORY, b_slot = s, b_mismatch = False,
        b_state = p\<lparr>the_queue := (the_queue p)\<lparr>available := rest\<rparr>\<rparr>\<rparr>"
  by (simp add: loop_body_def Q_Dequeue_def)

lemma loop_body_match:
  "available (the_queue p) = s # rest \<Longrightarrow> q_slots (the_queue p) s = Some b \<Longrightarrow>
   has_geometry b w h f \<Longrightarrow>
     loop_body c w h f u slot p =
       \<lparr>b_exit = Body_break, b_slot = s, b_mismatch = False,
        b_state = p\<lparr>the_queue := (the_queue p)\<lparr>available := rest\<rparr>\<rparr>\<rparr>"
  by (auto simp: loop_body_def Q_Dequeue_def has_geometry_def)

lemma loop_body_mismatch:
  assumes "available (the_queue p) = s # rest" and "q_slots (the_queue p) s = Some b"
    and "\<not> has_geometry b w h f"
  shows "loop_body c w h f u slot p =
       (if fst (AllocateBuffer c (after_removal p s rest) w h 1 f u) \<noteq> NO_ERROR
        then \<lparr>b_exit = Body_return (fst (AllocateBuffer c (after_removal p s rest) w h 1 f u)),
              b_slot = s, b_mismatch = True,
              b_state = snd (AllocateBuffer c (after_removal p s rest) w h 1 f u)\<rparr>
        else \<lparr>b_exit = Body_end, b_slot = s, b_mismatch = True,
              b_state = snd (AllocateBuffer c (after_removal p s rest) w h 1 f u)\<rparr>)"
proof -
  have rem: "snd (RemoveBuffer
                (set_slot (p\<lparr>the_queue := (the_queue p)\<lparr>available := rest\<rparr>\<rparr>) s
                   ((buffers p s)\<lparr>mIsReallocating := True\<rparr>)) s)
             = after_removal p s rest"
    using assms(2)
    by (simp add: RemoveBuffer_def Q_RemoveBuffer_def set_slot_def after_removal_def)
  show ?thesis
    using assms rem
    by (auto simp: loop_body_def Q_Dequeue_def has_geometry_def Let_def split: prod.splits)
qed

lemma loop_body_cases [case_names empty null match mismatch]:
  obtains
    (empty) "available (the_queue p) = []"
  | (null) s rest where "available (the_queue p) = s # rest" "q_slots (the_queue p) s = None"
  | (match) s rest b where "available (the_queue p) = s # rest"
      "q_slots (the_queue p) s = Some b" "has_geometry b w h f"
  | (mismatch) s rest b where "available (the_queue p) = s # rest"
      "q_slots (the_queue p) s = Some b" "\<not> has_geometry b w h f"
proof (cases "available (the_queue p)")
  case Nil
  then show ?thesis by (rule empty)
next
  case (Cons s rest)
  show ?thesis
  proof (cases "q_slots (the_queue p) s")
    case None
    with Cons show ?thesis by (rule null)
  next
    case (Some b)
    show ?thesis
    proof (cases "has_geometry b w h f")
      case True
      with Cons Some show ?thesis by (rule match)
    next
      case False
      with Cons Some show ?thesis by (rule mismatch)
    qed
  qed
qed

lemma AllocateBuffer_status:
  "fst (AllocateBuffer c p w h l f u) = NO_ERROR \<or> fst (AllocateBuffer c p w h l f u) = NO_MEMORY"
  using AllocateBuffer_cases [of c p w h l f u] by auto


lemma has_geometry_new_buffer: "has_geometry (new_buffer q w h f) w h f"
  by (simp add: has_geometry_def new_buffer_def)




lemma after_removal_other:
  "t \<noteq> s \<Longrightarrow> buffers (after_removal p s rest) t = buffers p t"
  "t \<noteq> s \<Longrightarrow> q_slots (the_queue (after_removal p s rest)) t = q_slots (the_queue p) t"
  by (simp_all add: after_removal_def)


lemma loop_body_return_NO_MEMORY:
  "b_exit (loop_body c w h f u slot p) = Body_return ret \<Longrightarrow> ret = NO_MEMORY"
proof (cases rule: loop_body_cases [where p = p and w = w and h = h and f = f])
  case empty
  assume "b_exit (loop_body c w h f u slot p) = Body_return ret"
  with empty show ?thesis by (simp add: loop_body_empty)
next
  case (null s rest)
  assume "b_exit (loop_body c w h f u slot p) = Body_return ret"
  with null show ?thesis by (simp add: loop_body_null)
next
  case (match s rest b)
  assume "b_exit (loop_body c w h f u slot p) = Body_return ret"
  with match show ?thesis by (simp add: loop_body_match)
next
  case (mismatch s rest b)
  assume "b_exit (loop_body c w h f u slot p) = Body_return ret"
  with mismatch AllocateBuffer_status [of c "after_removal p s rest" w h 1 f u]
  show ?thesis by (auto simp: loop_body_mismatch split: if_splits)
qed






lemma dequeue_loop_return_NO_MEMORY:
  "lr_exit (dequeue_loop c w h f u retry slot p) = Return ret \<Longrightarrow> ret = NO_MEMORY"
proof (induction retry slot p rule: dequeue_loop_induct [where c = c and w = w and h = h and f = f and u = u])
  case (step retry slot p)
  show ?case
  proof (cases "retry < kMaxQueueCapacity c")
    case False
    with step.prems show ?thesis by (simp add: dequeue_loop_exhausted)
  next
    case True
    show ?thesis
    proof (cases "b_exit (loop_body c w h f u slot p)")
      case (Body_return r)
      with True step.prems loop_body_return_NO_MEMORY [OF Body_return]
      show ?thesis by (simp add: dequeue_loop_return)
    next
      case Body_break
      with True step.prems show ?thesis by (simp add: dequeue_loop_break)
    next
      case Body_end
      with True step.prems step.IH [OF True Body_end]
      show ?thesis by (simp add: dequeue_loop_continue)
    qed
  qed
qed






lemma iteration_state_exit:
  "iteration_state c w h f u p0 k = Some (slot, pk) \<Longrightarrow>
     lr_exit (dequeue_loop c w h f u 0 0 p0) = lr_exit (dequeue_loop c w h f u k slot pk)"
proof (induction k arbitrary: slot pk)
  case 0
  then show ?case by simp
next
  case (Suc k)
  from Suc.prems obtain slot' pk' where
    prev: "iteration_state c w h f u p0 k = Some (slot', pk')"
    and k: "k < kMaxQueueCapacity c"
    and e: "b_exit (loop_body c w h f u slot' pk') = Body_end"
    and s: "slot = b_slot (loop_body c w h f u slot' pk')"
    and p: "pk = b_state (loop_body c w h f u slot' pk')"
    by (auto split: option.splits if_splits)
  have "lr_exit (dequeue_loop c w h f u 0 0 p0) = lr_exit (dequeue_loop c w h f u k slot' pk')"
    by (rule Suc.IH [OF prev])
  also have "\<dots> = lr_exit (dequeue_loop c w h f u (Suc k) slot pk)"
    using k e s p by (simp add: dequeue_loop_continue)
  finally show ?case .
qed

lemma dequeue_finish_record:
  "dq_iterations (dequeue_finish L) = lr_iterations L"
  "dq_reallocated (dequeue_finish L) = lr_reallocated L"
  "dq_matched (dequeue_finish L) = (lr_exit L = Break)"
  by (simp_all add: dequeue_finish_def Let_def)


lemma dequeue_finish_Inr:
  assumes "dq_result (dequeue_finish L) = Inr out"
  shows "out_slot out = lr_slot L"
    and "needs_reallocation out = mIsReallocating (buffers (lr_state L) (lr_slot L))"
    and "the_queue (dq_state (dequeue_finish L)) = the_queue (lr_state L)"
    and "mIsReallocating (buffers (dq_state (dequeue_finish L)) t)
           = (t \<noteq> lr_slot L \<and> mIsReallocating (buffers (lr_state L) t))"
    and "mBufferProducer (buffers (dq_state (dequeue_finish L)) t)
           = mBufferProducer (buffers (lr_state L) t)"
  using assms
  by (auto simp: dequeue_finish_def Let_def set_slot_def split: if_splits)

lemma dequeue_from_loop_record:
  "dq_iterations (dequeue_from_loop c p w h f u) = lr_iterations (dequeue_loop c w h f u 0 0 p)"
  "dq_reallocated (dequeue_from_loop c p w h f u) = lr_reallocated (dequeue_loop c w h f u 0 0 p)"
  "dq_matched (dequeue_from_loop c p w h f u) = (lr_exit (dequeue_loop c w h f u 0 0 p) = Break)"
  by (simp_all add: dequeue_from_loop_def Let_def dequeue_finish_record split: loop_exit.splits)

lemma dequeue_from_loop_Return:
  "lr_exit (dequeue_loop c w h f u 0 0 p) = Return ret \<Longrightarrow>
     dq_result (dequeue_from_loop c p w h f u) = Inl ret"
  by (simp add: dequeue_from_loop_def Let_def)


lemma dequeue_from_loop_Inr:
  assumes "dq_result (dequeue_from_loop c p w h f u) = Inr out"
  shows "out_slot out = lr_slot (dequeue_loop c w h f u 0 0 p)"
    and "needs_reallocation out
           = mIsReallocating (buffers (lr_state (dequeue_loop c w h f u 0 0 p))
                                (lr_slot (dequeue_loop c w h f u 0 0 p)))"
    and "the_queue (dq_state (dequeue_from_loop c p w h f u))
           = the_queue (lr_state (dequeue_loop c w h f u 0 0 p))"
    and "mIsReallocating (buffers (dq_state (dequeue_from_loop c p w h f u)) t)
           = (t \<noteq> lr_slot (dequeue_loop c w h f u 0 0 p)
              \<and> mIsReallocating (buffers (lr_state (dequeue_loop c w h f u 0 0 p)) t))"
    and "mBufferProducer (buffers (dq_state (dequeue_from_loop c p w h f u)) t)
           = mBufferProducer (buffers (lr_state (dequeue_loop c w h f u 0 0 p)) t)"
proof -
  have fin: "dequeue_from_loop c p w h f u = dequeue_finish (dequeue_loop c w h f u 0 0 p)"
    using assms by (auto simp: dequeue_from_loop_def Let_def split: loop_exit.splits)
  from assms have r: "dq_result (dequeue_finish (dequeue_loop c w h f u 0 0 p)) = Inr out"
    by (simp add: fin)
  show "out_slot out = lr_slot (dequeue_loop c w h f u 0 0 p)"
    by (rule dequeue_finish_Inr(1) [OF r])
  show "needs_reallocation out
           = mIsReallocating (buffers (lr_state (dequeue_loop c w h f u 0 0 p))
                                (lr_slot (dequeue_loop c w h f u 0 0 p)))"
    by (rule dequeue_finish_Inr(2) [OF r])
  show "the_queue (dq_state (dequeue_from_loop c p w h f u))
           = the_queue (lr_state (dequeue_loop c w h f u 0 0 p))"
    unfolding fin by (rule dequeue_finish_Inr(3) [OF r])
  show "mIsReallocating (buffers (dq_state (dequeue_from_loop c p w h f u)) t)
           = (t \<noteq> lr_slot (dequeue_loop c w h f u 0 0 p)
              \<and> mIsReallocating (buffers (lr_state (dequeue_loop c w h f u 0 0 p)) t))"
    unfolding fin by (rule dequeue_finish_Inr(4) [OF r])
  show "mBufferProducer (buffers (dq_state (dequeue_from_loop c p w h f u)) t)
           = mBufferProducer (buffers (lr_state (dequeue_loop c w h f u 0 0 p)) t)"
    unfolding fin by (rule dequeue_finish_Inr(5) [OF r])
qed

lemma dequeueBuffer_entered:
  "loop_entry c p w h f u = Some p0 \<Longrightarrow> dequeueBuffer c p w h f u = dequeue_from_loop c p0 w h f u"
  by (auto simp: loop_entry_def dequeueBuffer_def split: if_splits prod.splits)

lemma dequeueBuffer_not_entered:
  "loop_entry c p w h f u = None \<Longrightarrow>
     dq_iterations (dequeueBuffer c p w h f u) = 0 \<and> dq_reallocated (dequeueBuffer c p w h f u) = []
     \<and> (\<exists>e. dq_result (dequeueBuffer c p w h f u) = Inl e)"
  by (auto simp: loop_entry_def dequeueBuffer_def split: if_splits prod.splits)



lemma Q_AllocateBuffer_None:
  "Q_AllocateBuffer c (the_queue p) w h l f u = None \<Longrightarrow>
     AllocateBuffer c p w h l f u = (NO_MEMORY, p)"
  by (simp add: AllocateBuffer_def)

lemma dequeueBuffer_iterations:
  "dq_iterations (dequeueBuffer c p w h f u) \<le> kMaxQueueCapacity c"
proof (cases "loop_entry c p w h f u")
  case None
  then show ?thesis using dequeueBuffer_not_entered [OF None] by simp
next
  case (Some p0)
  have "lr_iterations (dequeue_loop c w h f u 0 0 p0) \<le> kMaxQueueCapacity c - 0"
    by (rule dequeue_loop_iterations)
  then show ?thesis
    by (simp add: dequeueBuffer_entered [OF Some] dequeue_from_loop_record)
qed

lemma dequeueBuffer_lazy_failure:
  assumes "connected_api p \<noteq> kNoConnectedApi c" and "lazy_allocation_due c p"
    and "Q_AllocateBuffer c (the_queue p) w h 1 f u = None"
  shows "dq_result (dequeueBuffer c p w h f u) = Inl NO_MEMORY"
  using assms by (simp add: dequeueBuffer_def Q_AllocateBuffer_None)

lemma dequeueBuffer_body_return:
  assumes entry: "loop_entry c p w h f u = Some p0"
    and at: "iteration_state c w h f u p0 k = Some (slot, pk)"
    and k: "k < kMaxQueueCapacity c"
    and ret: "b_exit (loop_body c w h f u slot pk) = Body_return ret"
  shows "dq_result (dequeueBuffer c p w h f u) = Inl NO_MEMORY"
proof -
  have "ret = NO_MEMORY" using ret by (rule loop_body_return_NO_MEMORY)
  with k ret have "lr_exit (dequeue_loop c w h f u k slot pk) = Return NO_MEMORY"
    by (simp add: dequeue_loop_return)
  then have "lr_exit (dequeue_loop c w h f u 0 0 p0) = Return NO_MEMORY"
    by (simp add: iteration_state_exit [OF at])
  then have "dq_result (dequeue_from_loop c p0 w h f u) = Inl NO_MEMORY"
    by (rule dequeue_from_loop_Return)
  then show ?thesis by (simp add: dequeueBuffer_entered [OF entry])
qed

lemma AllocateBuffer_next_id:
  "next_buffer_id (the_queue p) \<le> next_buffer_id (the_queue (snd (AllocateBuffer c p w h l f u)))"
  using AllocateBuffer_cases [of c p w h l f u] by auto

lemma AllocateBuffer_rebound:
  "rebound p s w h f n0 \<Longrightarrow> rebound (snd (AllocateBuffer c p w h l f u)) s w h f n0"
  using AllocateBuffer_cases [of c p w h l f u]
  by (auto simp: rebound_def)

lemma occupied_belowD: "occupied_below q n \<Longrightarrow> (q_slots q i \<noteq> None) = (i < n)"
  by (simp add: occupied_below_def)

lemma AllocateBuffer_occupied:
  assumes "occupied_below (the_queue p) n" and "fst (AllocateBuffer c p w h l f u) = NO_ERROR"
  shows "occupied_below (the_queue (snd (AllocateBuffer c p w h l f u))) (Suc n)"
proof -
  from assms(2) AllocateBuffer_cases [of c p w h l f u]
  obtain t where t: "q_slots (the_queue p) t = None" "\<forall>i<t. q_slots (the_queue p) i \<noteq> None"
    and eq: "the_queue (snd (AllocateBuffer c p w h l f u)) =
          (the_queue p)
             \<lparr>q_slots := (q_slots (the_queue p))(t \<mapsto> new_buffer (the_queue p) w h f),
              available := available (the_queue p) @ [t],
              next_buffer_id := Suc (next_buffer_id (the_queue p)),
              alloc_budget := alloc_budget (the_queue p) - 1\<rparr>"
    by auto
  from t(1) have "\<not> t < n" using occupied_belowD [OF assms(1), of t] by simp
  moreover from t(2) have "\<not> n < t" using occupied_belowD [OF assms(1), of n] by auto
  ultimately have "t = n" by simp
  with assms(1) show ?thesis
    by (auto simp: eq occupied_below_def less_Suc_eq)
qed

lemma loop_body_next_id:
  "next_buffer_id (the_queue p) \<le> next_buffer_id (the_queue (b_state (loop_body c w h f u slot p)))"
proof (cases rule: loop_body_cases [where p = p and w = w and h = h and f = f])
  case empty
  then show ?thesis by (simp add: loop_body_empty)
next
  case (null s rest)
  then show ?thesis by (simp add: loop_body_null)
next
  case (match s rest b)
  then show ?thesis by (simp add: loop_body_match)
next
  case (mismatch s rest b)
  have "next_buffer_id (the_queue (after_removal p s rest))
          \<le> next_buffer_id (the_queue (snd (AllocateBuffer c (after_removal p s rest) w h 1 f u)))"
    by (rule AllocateBuffer_next_id)
  with mismatch show ?thesis by (simp add: loop_body_mismatch after_removal_def)
qed

lemma loop_body_rebound_kept:
  assumes "rebound p t w h f n0"
  shows "rebound (b_state (loop_body c w h f u slot p)) t w h f n0"
proof (cases rule: loop_body_cases [where p = p and w = w and h = h and f = f])
  case empty
  with assms show ?thesis by (simp add: loop_body_empty)
next
  case (null s rest)
  with assms show ?thesis by (simp add: loop_body_null rebound_def)
next
  case (match s rest b)
  with assms show ?thesis by (simp add: loop_body_match rebound_def)
next
  case (mismatch s rest b)
  from assms mismatch(2,3) have "t \<noteq> s" by (auto simp: rebound_def)
  with assms have "rebound (after_removal p s rest) t w h f n0"
    by (simp add: rebound_def after_removal_other)
  then have "rebound (snd (AllocateBuffer c (after_removal p s rest) w h 1 f u)) t w h f n0"
    by (rule AllocateBuffer_rebound)
  with mismatch show ?thesis by (simp add: loop_body_mismatch)
qed

lemma loop_body_end_rebinds:
  assumes occ: "occupied_below (the_queue p) n"
    and e: "b_exit (loop_body c w h f u slot p) = Body_end"
  shows "occupied_below (the_queue (b_state (loop_body c w h f u slot p))) n"
    and "rebound (b_state (loop_body c w h f u slot p)) (b_slot (loop_body c w h f u slot p))
           w h f (next_buffer_id (the_queue p))"
    and "b_mismatch (loop_body c w h f u slot p)"
proof -
  have "occupied_below (the_queue (b_state (loop_body c w h f u slot p))) n \<and>
        rebound (b_state (loop_body c w h f u slot p)) (b_slot (loop_body c w h f u slot p))
           w h f (next_buffer_id (the_queue p)) \<and>
        b_mismatch (loop_body c w h f u slot p)"
  proof (cases rule: loop_body_cases [where p = p and w = w and h = h and f = f])
    case empty
    with e show ?thesis by (simp add: loop_body_empty)
  next
    case (null s rest)
    with e show ?thesis by (simp add: loop_body_null)
  next
    case (match s rest b)
    with e show ?thesis by (simp add: loop_body_match)
  next
    case (mismatch s rest b)
    let ?p2 = "after_removal p s rest"
    let ?new = "new_buffer (the_queue ?p2) w h f"
    from e mismatch have ok: "fst (AllocateBuffer c ?p2 w h 1 f u) = NO_ERROR"
      by (simp add: loop_body_mismatch split: if_splits)
    with AllocateBuffer_cases [of c ?p2 w h 1 f u]
    obtain t where t: "q_slots (the_queue ?p2) t = None"
        "\<forall>i<t. q_slots (the_queue ?p2) i \<noteq> None"
      and eq: "snd (AllocateBuffer c ?p2 w h 1 f u) =
          ?p2\<lparr>the_queue := (the_queue ?p2)
                 \<lparr>q_slots := (q_slots (the_queue ?p2))(t \<mapsto> ?new),
                  available := available (the_queue ?p2) @ [t],
                  next_buffer_id := Suc (next_buffer_id (the_queue ?p2)),
                  alloc_budget := alloc_budget (the_queue ?p2) - 1\<rparr>,
             buffers := (buffers ?p2)(t := (buffers ?p2 t)\<lparr>mBufferProducer := Some ?new\<rparr>)\<rparr>"
      by auto
    from mismatch(2) have sn: "s < n" using occupied_belowD [OF occ, of s] by simp
    have "t = s"
    proof (rule ccontr)
      assume ne: "t \<noteq> s"
      with t(1) have "q_slots (the_queue p) t = None" by (simp add: after_removal_def)
      then have "\<not> t < n" using occupied_belowD [OF occ, of t] by simp
      with sn have "s < t" by simp
      with t(2) have "q_slots (the_queue ?p2) s \<noteq> None" by blast
      then show False by (simp add: after_removal_def)
    qed
    have st: "b_state (loop_body c w h f u slot p) = snd (AllocateBuffer c ?p2 w h 1 f u)"
      and sl: "b_slot (loop_body c w h f u slot p) = s"
      and mm: "b_mismatch (loop_body c w h f u slot p)"
      using mismatch ok by (simp_all add: loop_body_mismatch)
    have occ': "occupied_below (the_queue (snd (AllocateBuffer c ?p2 w h 1 f u))) n"
      using occ mismatch(2) unfolding eq \<open>t = s\<close>
      by (auto simp: occupied_below_def after_removal_def)
    have reb: "rebound (snd (AllocateBuffer c ?p2 w h 1 f u)) s w h f (next_buffer_id (the_queue p))"
      unfolding eq \<open>t = s\<close>
      by (simp add: rebound_def has_geometry_new_buffer) (simp add: new_buffer_def after_removal_def)
    show ?thesis using occ' reb mm by (simp add: st sl)
  qed
  then show "occupied_below (the_queue (b_state (loop_body c w h f u slot p))) n"
    and "rebound (b_state (loop_body c w h f u slot p)) (b_slot (loop_body c w h f u slot p))
           w h f (next_buffer_id (the_queue p))"
    and "b_mismatch (loop_body c w h f u slot p)"
    by simp_all
qed

lemma loop_body_break_state:
  assumes "b_exit (loop_body c w h f u slot p) = Body_break"
  shows "q_slots (the_queue (b_state (loop_body c w h f u slot p))) = q_slots (the_queue p)"
    and "\<not> b_mismatch (loop_body c w h f u slot p)"
proof -
  have "q_slots (the_queue (b_state (loop_body c w h f u slot p))) = q_slots (the_queue p) \<and>
        \<not> b_mismatch (loop_body c w h f u slot p)"
  proof (cases rule: loop_body_cases [where p = p and w = w and h = h and f = f])
    case empty
    with assms show ?thesis by (simp add: loop_body_empty)
  next
    case (null s rest)
    with assms show ?thesis by (simp add: loop_body_null)
  next
    case (match s rest b)
    then show ?thesis by (simp add: loop_body_match)
  next
    case (mismatch s rest b)
    with assms show ?thesis by (simp add: loop_body_mismatch split: if_splits)
  qed
  then show "q_slots (the_queue (b_state (loop_body c w h f u slot p))) = q_slots (the_queue p)"
    and "\<not> b_mismatch (loop_body c w h f u slot p)"
    by simp_all
qed

lemma rebound_mono: "rebound p s w h f n1 \<Longrightarrow> n0 \<le> n1 \<Longrightarrow> rebound p s w h f n0"
  by (auto simp: rebound_def)

lemma dequeue_loop_rebound_kept:
  "rebound p t w h f n0 \<Longrightarrow>
     rebound (lr_state (dequeue_loop c w h f u retry slot p)) t w h f n0"
proof (induction retry slot p rule: dequeue_loop_induct [where c = c and w = w and h = h and f = f and u = u])
  case (step retry slot p)
  note kept = loop_body_rebound_kept [OF step.prems, of c u slot]
  show ?case
  proof (cases "retry < kMaxQueueCapacity c")
    case False
    with step.prems show ?thesis by (simp add: dequeue_loop_exhausted)
  next
    case True
    show ?thesis
    proof (cases "b_exit (loop_body c w h f u slot p)")
      case (Body_return r)
      with True kept show ?thesis by (simp add: dequeue_loop_return)
    next
      case Body_break
      with True kept show ?thesis by (simp add: dequeue_loop_break)
    next
      case Body_end
      with True step.IH [OF True Body_end kept]
      show ?thesis by (simp add: dequeue_loop_continue)
    qed
  qed
qed

lemma dequeue_loop_rebinds:
  assumes "occupied_below (the_queue p) n" and "n0 \<le> next_buffer_id (the_queue p)"
    and "\<forall>ret. lr_exit (dequeue_loop c w h f u retry slot p) \<noteq> Return ret"
  shows "occupied_below (the_queue (lr_state (dequeue_loop c w h f u retry slot p))) n \<and>
         (\<forall>s \<in> set (lr_reallocated (dequeue_loop c w h f u retry slot p)).
            rebound (lr_state (dequeue_loop c w h f u retry slot p)) s w h f n0)"
  using assms
proof (induction retry slot p rule: dequeue_loop_induct [where c = c and w = w and h = h and f = f and u = u])
  case (step retry slot p)
  show ?case
  proof (cases "retry < kMaxQueueCapacity c")
    case False
    with step.prems show ?thesis by (simp add: dequeue_loop_exhausted)
  next
    case True
    show ?thesis
    proof (cases "b_exit (loop_body c w h f u slot p)")
      case (Body_return r)
      with True step.prems(3) show ?thesis by (simp add: dequeue_loop_return)
    next
      case Body_break
      with True step.prems(1) loop_body_break_state [OF Body_break] show ?thesis
        by (simp add: dequeue_loop_break occupied_below_def)
    next
      case Body_end
      let ?b = "loop_body c w h f u slot p"
      let ?r = "dequeue_loop c w h f u (Suc retry) (b_slot ?b) (b_state ?b)"
      note e = loop_body_end_rebinds [OF step.prems(1) Body_end]
      have id: "n0 \<le> next_buffer_id (the_queue (b_state ?b))"
        using step.prems(2) loop_body_next_id [of p c w h f u slot] by simp
      have ex: "\<forall>ret. lr_exit ?r \<noteq> Return ret"
        using step.prems(3) True Body_end by (simp add: dequeue_loop_continue)
      note ih = step.IH [OF True Body_end e(1) id ex]
      have "rebound (b_state ?b) (b_slot ?b) w h f n0"
        using e(2) step.prems(2) by (rule rebound_mono)
      then have "rebound (lr_state ?r) (b_slot ?b) w h f n0"
        by (rule dequeue_loop_rebound_kept)
      with ih True Body_end e(3) show ?thesis
        by (simp add: dequeue_loop_continue)
    qed
  qed
qed

lemma Q_AllocateBuffer_no_budget:
  "alloc_budget q = 0 \<Longrightarrow> Q_AllocateBuffer c q w h l f u = None"
  by (simp add: Q_AllocateBuffer_def split: option.splits)



subsection \<open>\<^verbatim>\<open>dequeueBuffer\<close>: termination and the errors of the loop\<close>

text \<open>
  Claim C8.  For every call of \<^verbatim>\<open>dequeueBuffer\<close> -- which, being a total function,
  always returns -- the body of the pop-and-check loop is entered at most
  \<^verbatim>\<open>kMaxQueueCapacity\<close> times.  The call returns \<^verbatim>\<open>NO_MEMORY\<close> when the lazy allocation
  before the loop fails; when, at the start of any iteration the loop reaches, no slot is
  ready (the pop times out); and when, in any iteration the loop reaches, the buffer
  popped has another geometry and the allocation of its replacement fails.
\<close>

theorem dequeueBuffer_bounded:
  "dq_iterations (dequeueBuffer c p w h f u) \<le> kMaxQueueCapacity c \<and>
   (connected_api p \<noteq> kNoConnectedApi c \<and> lazy_allocation_due c p
      \<and> Q_AllocateBuffer c (the_queue p) w h 1 f u = None
    \<longrightarrow> dq_result (dequeueBuffer c p w h f u) = Inl NO_MEMORY) \<and>
   (loop_entry c p w h f u = Some p0 \<and> iteration_state c w h f u p0 k = Some (slot, pk)
      \<and> k < kMaxQueueCapacity c \<and> available (the_queue pk) = []
    \<longrightarrow> dq_result (dequeueBuffer c p w h f u) = Inl NO_MEMORY) \<and>
   (loop_entry c p w h f u = Some p0 \<and> iteration_state c w h f u p0 k = Some (slot, pk)
      \<and> k < kMaxQueueCapacity c \<and> available (the_queue pk) = s # rest
      \<and> q_slots (the_queue pk) s = Some b \<and> \<not> has_geometry b w h f
      \<and> Q_AllocateBuffer c (the_queue (after_removal pk s rest)) w h 1 f u = None
    \<longrightarrow> dq_result (dequeueBuffer c p w h f u) = Inl NO_MEMORY)"
proof (intro conjI impI)
  show "dq_iterations (dequeueBuffer c p w h f u) \<le> kMaxQueueCapacity c"
    by (rule dequeueBuffer_iterations)
next
  assume "connected_api p \<noteq> kNoConnectedApi c \<and> lazy_allocation_due c p
      \<and> Q_AllocateBuffer c (the_queue p) w h 1 f u = None"
  then show "dq_result (dequeueBuffer c p w h f u) = Inl NO_MEMORY"
    by (simp add: dequeueBuffer_lazy_failure)
next
  assume a: "loop_entry c p w h f u = Some p0 \<and> iteration_state c w h f u p0 k = Some (slot, pk)
      \<and> k < kMaxQueueCapacity c \<and> available (the_queue pk) = []"
  then have "b_exit (loop_body c w h f u slot pk) = Body_return NO_MEMORY"
    by (simp add: loop_body_empty)
  with a show "dq_result (dequeueBuffer c p w h f u) = Inl NO_MEMORY"
    by (blast intro: dequeueBuffer_body_return)
next
  assume a: "loop_entry c p w h f u = Some p0 \<and> iteration_state c w h f u p0 k = Some (slot, pk)
      \<and> k < kMaxQueueCapacity c \<and> available (the_queue pk) = s # rest
      \<and> q_slots (the_queue pk) s = Some b \<and> \<not> has_geometry b w h f
      \<and> Q_AllocateBuffer c (the_queue (after_removal pk s rest)) w h 1 f u = None"
  then have "b_exit (loop_body c w h f u slot pk) = Body_return NO_MEMORY"
    by (simp add: loop_body_mismatch Q_AllocateBuffer_None)
  with a show "dq_result (dequeueBuffer c p w h f u) = Inl NO_MEMORY"
    by (blast intro: dequeueBuffer_body_return)
qed

theorem dequeueBuffer_bounded_witness:
  "dq_iterations (dequeueBuffer example_consts after_cancel 100 100 1 0)
     \<le> kMaxQueueCapacity example_consts \<and>
   connected_api (out_of_budget fresh_producer) \<noteq> kNoConnectedApi example_consts \<and>
   lazy_allocation_due example_consts (out_of_budget fresh_producer) \<and>
   Q_AllocateBuffer example_consts (the_queue (out_of_budget fresh_producer)) 50 50 1 1 0 = None \<and>
   dq_result (dequeueBuffer example_consts (out_of_budget fresh_producer) 50 50 1 0)
     = Inl NO_MEMORY \<and>
   loop_entry example_consts both_dequeued 50 50 1 0 = Some both_dequeued \<and>
   iteration_state example_consts 50 50 1 0 both_dequeued 0 = Some (0, both_dequeued) \<and>
   0 < kMaxQueueCapacity example_consts \<and>
   available (the_queue both_dequeued) = [] \<and>
   dq_result (dequeueBuffer example_consts both_dequeued 50 50 1 0) = Inl NO_MEMORY \<and>
   loop_entry example_consts (out_of_budget one_ready) 100 100 1 0
     = Some (out_of_budget one_ready) \<and>
   iteration_state example_consts 100 100 1 0 (out_of_budget one_ready) 0
     = Some (0, out_of_budget one_ready) \<and>
   available (the_queue (out_of_budget one_ready)) = 0 # [] \<and>
   q_slots (the_queue (out_of_budget one_ready)) 0 = Some example_buffer \<and>
   \<not> has_geometry example_buffer 100 100 1 \<and>
   Q_AllocateBuffer example_consts
      (the_queue (after_removal (out_of_budget one_ready) 0 [])) 100 100 1 1 0 = None \<and>
   dq_result (dequeueBuffer example_consts (out_of_budget one_ready) 100 100 1 0)
     = Inl NO_MEMORY"
proof -
  note t = dequeueBuffer_bounded [where c = example_consts]
  have i: "dq_iterations (dequeueBuffer example_consts after_cancel 100 100 1 0)
             \<le> kMaxQueueCapacity example_consts"
    using t [of after_cancel 100 100 1 0] by blast
  have a1: "connected_api (out_of_budget fresh_producer) \<noteq> kNoConnectedApi example_consts"
    by code_simp
  have a2: "lazy_allocation_due example_consts (out_of_budget fresh_producer)" by code_simp
  have a3: "Q_AllocateBuffer example_consts (the_queue (out_of_budget fresh_producer)) 50 50 1 1 0
              = None"
    by (rule Q_AllocateBuffer_no_budget) (simp add: out_of_budget_def)
  have a: "dq_result (dequeueBuffer example_consts (out_of_budget fresh_producer) 50 50 1 0)
             = Inl NO_MEMORY"
    using t [of "out_of_budget fresh_producer" 50 50 1 0] a1 a2 a3 by blast
  have b0: "connected_api both_dequeued \<noteq> kNoConnectedApi example_consts" by code_simp
  have b0': "\<not> lazy_allocation_due example_consts both_dequeued" by code_simp
  have b1: "loop_entry example_consts both_dequeued 50 50 1 0 = Some both_dequeued"
    using b0 b0' by (simp add: loop_entry_def)
  have b2: "iteration_state example_consts 50 50 1 0 both_dequeued 0 = Some (0, both_dequeued)"
    by simp
  have b3: "0 < kMaxQueueCapacity example_consts" by (simp add: example_consts_def)
  have b4: "available (the_queue both_dequeued) = []" by code_simp
  have b: "dq_result (dequeueBuffer example_consts both_dequeued 50 50 1 0) = Inl NO_MEMORY"
    using t [of both_dequeued 50 50 1 0 both_dequeued 0 0 both_dequeued] b1 b2 b3 b4 by blast
  have c0: "connected_api (out_of_budget one_ready) \<noteq> kNoConnectedApi example_consts"
    by code_simp
  have c0': "\<not> lazy_allocation_due example_consts (out_of_budget one_ready)" by code_simp
  have c1: "loop_entry example_consts (out_of_budget one_ready) 100 100 1 0
              = Some (out_of_budget one_ready)"
    using c0 c0' by (simp add: loop_entry_def)
  have c2: "iteration_state example_consts 100 100 1 0 (out_of_budget one_ready) 0
              = Some (0, out_of_budget one_ready)"
    by simp
  have c4: "available (the_queue (out_of_budget one_ready)) = 0 # []" by code_simp
  have c5: "q_slots (the_queue (out_of_budget one_ready)) 0 = Some example_buffer" by code_simp
  have c6: "\<not> has_geometry example_buffer 100 100 1" by code_simp
  have c7: "Q_AllocateBuffer example_consts
              (the_queue (after_removal (out_of_budget one_ready) 0 [])) 100 100 1 1 0 = None"
    by (rule Q_AllocateBuffer_no_budget) (simp add: after_removal_def out_of_budget_def)
  have c: "dq_result (dequeueBuffer example_consts (out_of_budget one_ready) 100 100 1 0)
             = Inl NO_MEMORY"
    using t [of "out_of_budget one_ready" 100 100 1 0 "out_of_budget one_ready" 0 0
               "out_of_budget one_ready" 0 "[]" example_buffer] c1 c2 b3 c4 c5 c6 c7
    by blast
  show ?thesis
    using i a1 a2 a3 a b1 b2 b3 b4 b c1 c2 c4 c5 c6 c7 c by blast
qed

subsection \<open>\<^verbatim>\<open>dequeueBuffer\<close>: reallocation on a geometry mismatch\<close>


lemma loop_entry_occupied:
  assumes "loop_entry c p w h f u = Some p0" and "occupied_below (the_queue p) n"
  shows "occupied_below (the_queue p0) n \<or> occupied_below (the_queue p0) (Suc n)"
proof (cases "lazy_allocation_due c p")
  case False
  with assms show ?thesis by (auto simp: loop_entry_def split: if_splits)
next
  case True
  with assms(1) have ok: "fst (AllocateBuffer c p w h 1 f u) = NO_ERROR"
    and p0: "p0 = snd (AllocateBuffer c p w h 1 f u)"
    by (auto simp: loop_entry_def split: if_splits prod.splits)
  show ?thesis unfolding p0 using AllocateBuffer_occupied [OF assms(2) ok] by simp
qed

lemma loop_entry_next_id:
  "loop_entry c p w h f u = Some p0 \<Longrightarrow>
     next_buffer_id (the_queue p) \<le> next_buffer_id (the_queue p0)"
  using AllocateBuffer_next_id [of p c w h 1 f u]
  by (auto simp: loop_entry_def split: if_splits prod.splits)

lemma dequeue_from_loop_Inr_exit:
  "dq_result (dequeue_from_loop c p w h f u) = Inr out \<Longrightarrow>
     \<forall>ret. lr_exit (dequeue_loop c w h f u 0 0 p) \<noteq> Return ret"
  using dequeue_from_loop_Return [of c w h f u p] by auto

lemma dequeueBuffer_Inr_entered:
  "dq_result (dequeueBuffer c p w h f u) = Inr out \<Longrightarrow> \<exists>p0. loop_entry c p w h f u = Some p0"
  using dequeueBuffer_not_entered [of c p w h f u] by (cases "loop_entry c p w h f u") auto

lemma dequeueBuffer_rebinds:
  assumes gap: "no_gap (the_queue p)"
    and res: "dq_result (dequeueBuffer c p w h f u) = Inr out"
  shows "no_gap (the_queue (dq_state (dequeueBuffer c p w h f u)))"
    and "s \<in> set (dq_reallocated (dequeueBuffer c p w h f u)) \<Longrightarrow>
           rebound (dq_state (dequeueBuffer c p w h f u)) s w h f (next_buffer_id (the_queue p))"
proof -
  from res obtain p0 where entry: "loop_entry c p w h f u = Some p0"
    using dequeueBuffer_Inr_entered by blast
  let ?L = "dequeue_loop c w h f u 0 0 p0"
  let ?r = "dequeue_from_loop c p0 w h f u"
  have r: "dequeueBuffer c p w h f u = ?r" by (rule dequeueBuffer_entered [OF entry])
  from res have res': "dq_result ?r = Inr out" by (simp add: r)
  note fin = dequeue_from_loop_Inr [OF res']
  from gap obtain n where "occupied_below (the_queue p) n" by (auto simp: no_gap_def)
  with entry obtain m where m: "occupied_below (the_queue p0) m"
    using loop_entry_occupied by blast
  note inv = dequeue_loop_rebinds [OF m loop_entry_next_id [OF entry]
                dequeue_from_loop_Inr_exit [OF res']]
  from inv have "occupied_below (the_queue (dq_state ?r)) m"
    by (simp add: fin(3))
  then show "no_gap (the_queue (dq_state (dequeueBuffer c p w h f u)))"
    unfolding r no_gap_def by blast
  show "rebound (dq_state (dequeueBuffer c p w h f u)) s w h f (next_buffer_id (the_queue p))"
    if "s \<in> set (dq_reallocated (dequeueBuffer c p w h f u))"
  proof -
    from that have "s \<in> set (lr_reallocated ?L)" by (simp add: r dequeue_from_loop_record)
    with inv have "rebound (lr_state ?L) s w h f (next_buffer_id (the_queue p))" by blast
    then show ?thesis unfolding r by (simp add: rebound_def fin(3,5))
  qed
qed

lemma cancelBuffer_q_slots:
  "q_slots (the_queue (snd (cancelBuffer c p slot fence))) = q_slots (the_queue p)"
  by (auto simp: cancelBuffer_def Q_Enqueue_def set_slot_def Let_def split: option.splits)

lemma cancelBuffer_no_gap:
  "no_gap (the_queue p) \<Longrightarrow> no_gap (the_queue (snd (cancelBuffer c p slot fence)))"
  by (simp add: no_gap_def occupied_below_def cancelBuffer_q_slots)

lemma requestBuffer_queue:
  "the_queue (snd (snd (requestBuffer c p slot))) = the_queue p"
  by (auto simp: requestBuffer_def set_slot_def split: option.splits)

lemma no_gap_fresh_producer: "no_gap (the_queue fresh_producer)"
  unfolding no_gap_def occupied_below_def by (rule exI [of _ 0]) (simp add: fresh_producer_def)

lemma no_gap_after_dequeue: "no_gap (the_queue after_dequeue)"
proof -
  have "dq_result (dequeueBuffer example_consts fresh_producer 50 50 1 0)
          = Inr \<lparr>out_slot = 0, out_fence = NO_FENCE, needs_reallocation = False\<rparr>"
    by code_simp
  then show ?thesis
    unfolding after_dequeue_def by (rule dequeueBuffer_rebinds(1) [OF no_gap_fresh_producer])
qed

lemma no_gap_after_cancel: "no_gap (the_queue after_cancel)"
  unfolding after_cancel_def after_request_def
  by (rule cancelBuffer_no_gap) (simp add: requestBuffer_queue no_gap_after_dequeue)










































end
